theory Spec2Isabelle
  imports Complex_Main
begin

section \<open>Continuation power flow: errors and array primitives\<close>

text \<open>
  The source is \<^verbatim>\<open>src/grid/ContinuationPowerFlow.py\<close>. Floats are modelled as reals and
  complex floats as \<^typ>\<open>complex\<close>; numpy arrays are lists, index arrays are lists of
  Python integers. Every exception the code can raise is a value of \<open>py_error\<close>, and a
  function that can raise returns \<open>py_error + 'a\<close> (\<open>Inl\<close> the error).

  \<open>NonFinite\<close> is not a Python exception: numpy's float division by zero yields
  \<open>inf\<close> or \<open>nan\<close> (with a warning) and carries on. The reals have no such values, so
  where such a value would be stored in the tangent vector or the step the model stops with
  \<open>NonFinite\<close>.
\<close>

datatype py_error =
    IndexError
  | ValueError
  | UnboundLocalError
  | StopPointNotRecognised string
  | NonFinite

definition bind_err :: "py_error + 'a \<Rightarrow> ('a \<Rightarrow> py_error + 'b) \<Rightarrow> py_error + 'b" where
  "bind_err m f = (case m of Inl e \<Rightarrow> Inl e | Inr x \<Rightarrow> f x)"

text \<open>
  numpy index normalisation for an axis of length \<open>n\<close>: \<open>0 .. n-1\<close> as they are,
  \<open>-n .. -1\<close> counted from the end, anything else raises IndexError.
\<close>

definition np_index :: "nat \<Rightarrow> int \<Rightarrow> py_error + nat" where
  "np_index n i =
     (if 0 \<le> i \<and> i < int n then Inr (nat i)
      else if - int n \<le> i \<and> i < 0 then Inr (nat (i + int n))
      else Inl IndexError)"

text \<open>\<^verbatim>\<open>x[idx]\<close> for an integer index array \<open>idx\<close> (a copy of the selected entries).\<close>

fun index_array :: "'a list \<Rightarrow> int list \<Rightarrow> py_error + 'a list" where
  "index_array xs [] = Inr []"
| "index_array xs (i # idx) =
     bind_err (np_index (length xs) i) (\<lambda>k.
     bind_err (index_array xs idx) (\<lambda>ys. Inr (xs ! k # ys)))"

text \<open>\<^verbatim>\<open>x[i]\<close> for one integer \<open>i\<close>: a scalar.\<close>

definition index_elem :: "'a list \<Rightarrow> int \<Rightarrow> py_error + 'a" where
  "index_elem xs i = bind_err (np_index (length xs) i) (\<lambda>k. Inr (xs ! k))"

text \<open>
  \<^verbatim>\<open>s[0]\<close> where \<open>s\<close> is a numpy scalar (an entry of a one-dimensional array): numpy
  raises IndexError (``invalid index to scalar variable'') whatever the scalar is.
\<close>

definition scalar_subscript :: "real \<Rightarrow> int \<Rightarrow> py_error + real" where
  "scalar_subscript s i = Inl IndexError"

text \<open>
  \<^verbatim>\<open>x[idx] = vals\<close>: the entries are stored from left to right, so a repeated index
  keeps the last value. The value array must have the shape of the index array (numpy
  would also broadcast a one-element value array; no caller in this file passes one
  unless the index array has one element too).
\<close>

fun store_all :: "'a list \<Rightarrow> (nat \<times> 'a) list \<Rightarrow> 'a list" where
  "store_all xs [] = xs"
| "store_all xs ((k, v) # kvs) = store_all (xs[k := v]) kvs"

fun index_nats :: "nat \<Rightarrow> int list \<Rightarrow> py_error + nat list" where
  "index_nats n [] = Inr []"
| "index_nats n (i # idx) =
     bind_err (np_index n i) (\<lambda>k.
     bind_err (index_nats n idx) (\<lambda>ks. Inr (k # ks)))"

definition assign_array :: "'a list \<Rightarrow> int list \<Rightarrow> 'a list \<Rightarrow> py_error + 'a list" where
  "assign_array xs idx vals =
     bind_err (index_nats (length xs) idx) (\<lambda>ks.
     if length vals = length ks then Inr (store_all xs (zip ks vals)) else Inl ValueError)"

text \<open>\<^verbatim>\<open>angle(V)\<close> (in \<open>(-pi, pi]\<close>, 0 at 0) and \<^verbatim>\<open>abs(V)\<close>, entry by entry.\<close>

definition angle :: "complex list \<Rightarrow> real list" where
  "angle V = map Arg V"

definition abs_array :: "complex list \<Rightarrow> real list" where
  "abs_array V = map cmod V"

text \<open>\<^verbatim>\<open>Vm * exp(1j * Va)\<close>: both arrays come from the same voltage vector.\<close>

definition polar :: "real list \<Rightarrow> real list \<Rightarrow> complex list" where
  "polar Vm Va = map2 (\<lambda>m a. of_real m * cis a) Vm Va"

text \<open>\<^verbatim>\<open>a - b\<close> on arrays of one shape.\<close>

definition vsub :: "real list \<Rightarrow> real list \<Rightarrow> real list" where
  "vsub a b = map2 (\<lambda>x y. x - y) a b"

text \<open>\<^verbatim>\<open>dot(a, b)\<close> on one-dimensional arrays: ValueError unless the lengths agree.\<close>

definition dot :: "real list \<Rightarrow> real list \<Rightarrow> py_error + real" where
  "dot a b =
     (if length a = length b then Inr (sum_list (map2 (\<lambda>x y. x * y) a b))
      else Inl ValueError)"

text \<open>
  \<^verbatim>\<open>linalg.norm(x, Inf)\<close>, the largest absolute value, and \<^verbatim>\<open>linalg.norm(x)\<close>,
  the Euclidean norm. Every vector the code takes the infinity norm of ends with a
  scalar, so it is never empty.
\<close>

definition norm_inf :: "real list \<Rightarrow> real" where
  "norm_inf xs = fold max (map abs xs) 0"

definition norm2 :: "real list \<Rightarrow> real" where
  "norm2 xs = sqrt (sum_list (map (\<lambda>x. x\<^sup>2) xs))"

section \<open>The parameterization function and its gradient\<close>

text \<open>
  \<^verbatim>\<open>cpf_p\<close> (lines 102 to 166). \<open>P\<close> is assigned in the three branches only: with any
  other \<open>parameterization\<close> the \<^verbatim>\<open>return P\<close> finds \<open>P\<close> unbound.
\<close>

definition cpf_p ::
  "int \<Rightarrow> real \<Rightarrow> real list \<Rightarrow> complex list \<Rightarrow> real \<Rightarrow> complex list \<Rightarrow> real \<Rightarrow>
   int list \<Rightarrow> int list \<Rightarrow> int list \<Rightarrow> py_error + real" where
  "cpf_p parameterization step z V lam Vprv lamprv pv pq pvpq =
     (if parameterization = 1 then
        (if lam \<ge> lamprv then Inr (lam - lamprv - step) else Inr (lamprv - lam - step))
      else if parameterization = 2 then
        (let Va = angle V; Vm = abs_array V; Vaprv = angle Vprv; Vmprv = abs_array Vprv in
         bind_err (index_array Va pvpq) (\<lambda>a1.
         bind_err (index_array Vm pq) (\<lambda>a2.
         bind_err (index_array Vaprv pvpq) (\<lambda>b1.
         bind_err (index_array Vmprv pq) (\<lambda>b2.
         let a = a1 @ a2 @ [lam]; b = b1 @ b2 @ [lamprv] in
         Inr (sum_list (map (\<lambda>d. d\<^sup>2) (vsub a b)) - step\<^sup>2))))))
      else if parameterization = 3 then
        (let nb = int (length V);
             Va = angle V; Vm = abs_array V; Vaprv = angle Vprv; Vmprv = abs_array Vprv in
         bind_err (index_array z (pv @ pq @ map (\<lambda>i. nb + i) pq @ [2 * nb + 1])) (\<lambda>a.
         bind_err (index_array Va pvpq) (\<lambda>b1.
         bind_err (index_array Vm pq) (\<lambda>b2.
         bind_err (index_array Vaprv pvpq) (\<lambda>c1.
         bind_err (index_array Vmprv pq) (\<lambda>c2.
         let b = b1 @ b2 @ [lam]; c = c1 @ c2 @ [lamprv] in
         bind_err (dot a (vsub b c)) (\<lambda>d. Inr (d - step))))))))
      else Inl UnboundLocalError)"

text \<open>\<^verbatim>\<open>cpf_p_jac\<close> (lines 169 to 232), returning \<open>(dP_dV, dP_dlam)\<close>.\<close>

definition cpf_p_jac ::
  "int \<Rightarrow> real list \<Rightarrow> complex list \<Rightarrow> real \<Rightarrow> complex list \<Rightarrow> real \<Rightarrow>
   int list \<Rightarrow> int list \<Rightarrow> int list \<Rightarrow> py_error + (real list \<times> real)" where
  "cpf_p_jac parameterization z V lam Vprv lamprv pv pq pvpq =
     (if parameterization = 1 then
        (let npv = length pv; npq = length pq; dP_dV = replicate (npv + 2 * npq) 0 in
         if lam \<ge> lamprv then Inr (dP_dV, 1) else Inr (dP_dV, - 1))
      else if parameterization = 2 then
        (let Va = angle V; Vm = abs_array V; Vaprv = angle Vprv; Vmprv = abs_array Vprv in
         bind_err (index_array Va pvpq) (\<lambda>a1.
         bind_err (index_array Vm pq) (\<lambda>a2.
         bind_err (index_array Vaprv pvpq) (\<lambda>b1.
         bind_err (index_array Vmprv pq) (\<lambda>b2.
         let dP_dV = map (\<lambda>d. 2 * d) (vsub (a1 @ a2) (b1 @ b2)) in
         if lam = lamprv then Inr (dP_dV, 1) else Inr (dP_dV, 2 * (lam - lamprv)))))))
      else if parameterization = 3 then
        (let nb = int (length V) in
         bind_err (index_array z (pv @ pq @ map (\<lambda>i. nb + i) pq)) (\<lambda>dP_dV.
         bind_err (index_elem z (2 * nb + 1)) (\<lambda>s.
         bind_err (scalar_subscript s 0) (\<lambda>dP_dlam. Inr (dP_dV, dP_dlam)))))
      else Inl UnboundLocalError)"

text \<open>
  The arc-length residual and gradient in the words of the specification: the squared
  differences of the angles at the non-reference buses, of the magnitudes at the PQ buses
  and of lambda, less the squared step; the gradient is twice the differences.
\<close>

definition arc_length_residual ::
  "real \<Rightarrow> complex list \<Rightarrow> real \<Rightarrow> complex list \<Rightarrow> real \<Rightarrow> int list \<Rightarrow> int list \<Rightarrow> real" where
  "arc_length_residual step V lam Vprv lamprv pvpq pq =
     (\<Sum>i\<leftarrow>pvpq. (Arg (V ! nat i) - Arg (Vprv ! nat i))\<^sup>2)
     + (\<Sum>i\<leftarrow>pq. (cmod (V ! nat i) - cmod (Vprv ! nat i))\<^sup>2)
     + (lam - lamprv)\<^sup>2 - step\<^sup>2"

definition arc_length_gradient ::
  "complex list \<Rightarrow> real \<Rightarrow> complex list \<Rightarrow> real \<Rightarrow> int list \<Rightarrow> int list \<Rightarrow> real list \<times> real" where
  "arc_length_gradient V lam Vprv lamprv pvpq pq =
     (map (\<lambda>i. 2 * (Arg (V ! nat i) - Arg (Vprv ! nat i))) pvpq
      @ map (\<lambda>i. 2 * (cmod (V ! nat i) - cmod (Vprv ! nat i))) pq,
      if lam = lamprv then 1 else 2 * (lam - lamprv))"

text \<open>Bus indices as the interface promises them: \<open>0 .. nb-1\<close>.\<close>

definition bus_indices :: "nat \<Rightarrow> int list \<Rightarrow> bool" where
  "bus_indices nb idx = list_all (\<lambda>i. 0 \<le> i \<and> i < int nb) idx"

section \<open>The power-flow Jacobian\<close>

text \<open>
  Matrices are lists of rows. \<^verbatim>\<open>dSbus_dV\<close> (lines 16 to 76) has a sparse and a dense
  branch that compute the same products; one model serves both. A matrix-vector or
  matrix-matrix product of mismatched shapes raises ValueError, so \<open>Ybus\<close> must be
  \<open>nb \<times> nb\<close> for \<open>nb = len(V)\<close>, and every product is one of square matrices of
  that size.

  \<^verbatim>\<open>V / abs(V)\<close> divides by zero at a zero voltage entry. The specification makes a
  zero-magnitude voltage a violated precondition of the caller; numpy puts \<open>nan\<close> there,
  the model has the quotient of the reals (\<open>x / 0 = 0\<close>). The entries of the Jacobian are
  read by the linear solver only, which is a parameter of the model.
\<close>

definition mat_vec :: "complex list list \<Rightarrow> complex list \<Rightarrow> complex list" where
  "mat_vec A v = map (\<lambda>row. sum_list (map2 (\<lambda>x y. x * y) row v)) A"

definition mat_mul :: "complex list list \<Rightarrow> complex list list \<Rightarrow> complex list list" where
  "mat_mul A B =
     map (\<lambda>row. map (\<lambda>j. sum_list (map2 (\<lambda>x y. x * y) row (map (\<lambda>r. r ! j) B)))
                      [0..<length B]) A"

definition mat_add :: "complex list list \<Rightarrow> complex list list \<Rightarrow> complex list list" where
  "mat_add A B = map2 (\<lambda>r1 r2. map2 (\<lambda>x y. x + y) r1 r2) A B"

definition mat_sub :: "complex list list \<Rightarrow> complex list list \<Rightarrow> complex list list" where
  "mat_sub A B = map2 (\<lambda>r1 r2. map2 (\<lambda>x y. x - y) r1 r2) A B"

definition mat_conj :: "complex list list \<Rightarrow> complex list list" where
  "mat_conj A = map (map cnj) A"

definition mat_scale :: "complex \<Rightarrow> complex list list \<Rightarrow> complex list list" where
  "mat_scale c A = map (map (\<lambda>x. c * x)) A"

definition diag_matrix :: "complex list \<Rightarrow> complex list list" where
  "diag_matrix v =
     map (\<lambda>i. map (\<lambda>j. if i = j then v ! i else 0) [0..<length v]) [0..<length v]"

definition square_of :: "nat \<Rightarrow> 'a list list \<Rightarrow> bool" where
  "square_of nb A = (length A = nb \<and> list_all (\<lambda>row. length row = nb) A)"

definition dSbus_dV ::
  "complex list list \<Rightarrow> complex list \<Rightarrow> py_error + (complex list list \<times> complex list list)" where
  "dSbus_dV Ybus V =
     (if square_of (length V) Ybus then
        (let Ibus = mat_vec Ybus V;
             diagV = diag_matrix V;
             diagIbus = diag_matrix Ibus;
             diagVnorm = diag_matrix (map (\<lambda>v. v / of_real (cmod v)) V);
             dS_dVm = mat_add (mat_mul diagV (mat_conj (mat_mul Ybus diagVnorm)))
                              (mat_mul (mat_conj diagIbus) diagVnorm);
             dS_dVa = mat_scale \<i> (mat_mul diagV (mat_conj (mat_sub diagIbus (mat_mul Ybus diagV))))
         in Inr (dS_dVm, dS_dVa))
      else Inl ValueError)"

text \<open>\<^verbatim>\<open>M[array([rows]).T, cols]\<close> on an \<open>nb \<times> nb\<close> matrix: the submatrix.\<close>

definition index_matrix ::
  "nat \<Rightarrow> 'a list list \<Rightarrow> int list \<Rightarrow> int list \<Rightarrow> py_error + 'a list list" where
  "index_matrix nb M rows cols =
     bind_err (index_nats nb rows) (\<lambda>rs.
     bind_err (index_nats nb cols) (\<lambda>cs.
     Inr (map (\<lambda>r. map (\<lambda>c. M ! r ! c) cs) rs)))"

text \<open>\<^verbatim>\<open>hstack([A, B])\<close> and \<^verbatim>\<open>vstack([A, B])\<close> on blocks whose shapes fit.\<close>

definition hstack :: "'a list list \<Rightarrow> 'a list list \<Rightarrow> 'a list list" where
  "hstack A B = map2 (\<lambda>r1 r2. r1 @ r2) A B"

definition vstack :: "'a list list \<Rightarrow> 'a list list \<Rightarrow> 'a list list" where
  "vstack A B = A @ B"

text \<open>\<^verbatim>\<open>jacobian\<close> (lines 79 to 99).\<close>

definition jacobian ::
  "complex list list \<Rightarrow> complex list \<Rightarrow> int list \<Rightarrow> int list \<Rightarrow> py_error + real list list" where
  "jacobian Ybus V pvpq pq =
     bind_err (dSbus_dV Ybus V) (\<lambda>(dS_dVm, dS_dVa).
     let nb = length V in
     bind_err (index_matrix nb dS_dVa pvpq pvpq) (\<lambda>J11.
     bind_err (index_matrix nb dS_dVm pvpq pq) (\<lambda>J12.
     bind_err (index_matrix nb dS_dVa pq pvpq) (\<lambda>J21.
     bind_err (index_matrix nb dS_dVm pq pq) (\<lambda>J22.
     Inr (vstack (hstack (map (map Re) J11) (map (map Re) J12))
                 (hstack (map (map Im) J21) (map (map Im) J22))))))))"

text \<open>
  The augmented matrix both the predictor and the corrector build:
  \<^verbatim>\<open>vstack([hstack([J, dF_dlam.reshape(nj, 1)]), hstack([dP_dV, dP_dlam])])\<close>.
\<close>

definition augment :: "real list list \<Rightarrow> real list \<Rightarrow> real list \<Rightarrow> real \<Rightarrow> real list list" where
  "augment J dF_dlam dP_dV dP_dlam =
     vstack (hstack J (map (\<lambda>d. [d]) dF_dlam)) [dP_dV @ [dP_dlam]]"

text \<open>\<^verbatim>\<open>-r_[Sxfr[pvpq].real, Sxfr[pq].imag]\<close>.\<close>

definition dF_dlam_of :: "complex list \<Rightarrow> int list \<Rightarrow> int list \<Rightarrow> py_error + real list" where
  "dF_dlam_of Sxfr pvpq pq =
     bind_err (index_array Sxfr pvpq) (\<lambda>a.
     bind_err (index_array Sxfr pq) (\<lambda>b.
     Inr (map uminus (map Re a @ map Im b))))"

section \<open>The corrector\<close>

text \<open>
  \<^verbatim>\<open>scipy.sparse.linalg.spsolve\<close> is not code of this repository: the linear solver is
  the parameter \<open>spsolve\<close> of every function that calls it, taking the matrix and the
  right-hand side.
\<close>

type_synonym solver = "real list list \<Rightarrow> real list \<Rightarrow> real list"

text \<open>
  \<^verbatim>\<open>V * conj(Ybus * V) - Sbus - lam * Sxfr\<close>: ValueError unless \<open>Ybus\<close> is
  \<open>nb \<times> nb\<close> and the three vectors have \<open>nb\<close> entries (numpy would also broadcast a
  one-entry vector; the model takes the shapes the interface promises).
\<close>

definition power_mismatch ::
  "complex list list \<Rightarrow> complex list \<Rightarrow> complex list \<Rightarrow> real \<Rightarrow> complex list \<Rightarrow>
   py_error + complex list" where
  "power_mismatch Ybus Sbus V lam Sxfr =
     (if square_of (length V) Ybus \<and> length Sbus = length V \<and> length Sxfr = length V then
        Inr (map2 (\<lambda>(v, i) (s, x). v * cnj i - s - of_real lam * x)
               (zip V (mat_vec Ybus V)) (zip Sbus Sxfr))
      else Inl ValueError)"

text \<open>
  The augmented mismatch at the trial point (lines 322 to 331):
  \<^verbatim>\<open>F = r_[mis[pvpq].real, mis[pq].imag]\<close>, then \<^verbatim>\<open>F = r_[F, P]\<close>.
\<close>

definition augmented_mismatch0 ::
  "complex list list \<Rightarrow> complex list \<Rightarrow> complex list \<Rightarrow> int list \<Rightarrow> int list \<Rightarrow> real \<Rightarrow>
   complex list \<Rightarrow> complex list \<Rightarrow> real \<Rightarrow> real list \<Rightarrow> real \<Rightarrow> int \<Rightarrow> py_error + real list" where
  "augmented_mismatch0 Ybus Sbus V pv pq lam Sxfr Vprv lamprv z step parameterization =
     (let pvpq = pv @ pq in
      bind_err (power_mismatch Ybus Sbus V lam Sxfr) (\<lambda>mis.
      bind_err (index_array mis pvpq) (\<lambda>a.
      bind_err (index_array mis pq) (\<lambda>b.
      bind_err (cpf_p parameterization step z V lam Vprv lamprv pv pq pvpq) (\<lambda>P.
      Inr ((map Re a @ map Im b) @ [P]))))))"

text \<open>
  The same inside the loop (lines 384 to 395):
  \<^verbatim>\<open>F = r_[mis[pv].real, mis[pq].real, mis[pq].imag]\<close>.
\<close>

definition augmented_mismatch ::
  "complex list list \<Rightarrow> complex list \<Rightarrow> complex list \<Rightarrow> int list \<Rightarrow> int list \<Rightarrow> real \<Rightarrow>
   complex list \<Rightarrow> complex list \<Rightarrow> real \<Rightarrow> real list \<Rightarrow> real \<Rightarrow> int \<Rightarrow> py_error + real list" where
  "augmented_mismatch Ybus Sbus V pv pq lam Sxfr Vprv lamprv z step parameterization =
     (let pvpq = pv @ pq in
      bind_err (power_mismatch Ybus Sbus V lam Sxfr) (\<lambda>mis.
      bind_err (index_array mis pv) (\<lambda>a1.
      bind_err (index_array mis pq) (\<lambda>a2.
      bind_err (index_array mis pq) (\<lambda>b.
      bind_err (cpf_p parameterization step z V lam Vprv lamprv pv pq pvpq) (\<lambda>P.
      Inr ((map Re a1 @ map Re a2 @ map Im b) @ [P])))))))"

text \<open>\<^verbatim>\<open>x[a:b]\<close> for \<open>0 \<le> a \<le> b\<close>, and \<^verbatim>\<open>x[idx] += vals\<close>.\<close>

definition slice :: "'a list \<Rightarrow> nat \<Rightarrow> nat \<Rightarrow> 'a list" where
  "slice xs a b = take (b - a) (drop a xs)"

definition add_at :: "real list \<Rightarrow> int list \<Rightarrow> real list \<Rightarrow> py_error + real list" where
  "add_at xs idx vals =
     bind_err (index_array xs idx) (\<lambda>old.
     if length vals = length old then assign_array xs idx (map2 (\<lambda>x y. x + y) old vals)
     else Inl ValueError)"

text \<open>
  One pass of the Newton loop from the Jacobian to the update of lambda (lines 350 to
  382). \<open>Va\<close> and \<open>Vm\<close> are \<open>angle(V)\<close> and \<open>abs(V)\<close> whenever the loop body starts
  (lines 287, 288, 378 and 379), so they are taken from \<open>V\<close>.
\<close>

definition newton_update ::
  "solver \<Rightarrow> complex list list \<Rightarrow> complex list \<Rightarrow> int list \<Rightarrow> int list \<Rightarrow> real \<Rightarrow>
   complex list \<Rightarrow> complex list \<Rightarrow> real \<Rightarrow> real list \<Rightarrow> int \<Rightarrow> real list \<Rightarrow>
   py_error + (complex list \<times> real)" where
  "newton_update spsolve Ybus V pv pq lam Sxfr Vprv lamprv z parameterization F =
     (let npv = length pv; npq = length pq; pvpq = pv @ pq;
          j1 = 0; j2 = npv; j3 = j2; j4 = j2 + npq; j5 = j4; j6 = j4 + npq; j7 = j6; j8 = j6 + 1;
          Va = angle V; Vm = abs_array V in
      bind_err (jacobian Ybus V pvpq pq) (\<lambda>J.
      bind_err (dF_dlam_of Sxfr pvpq pq) (\<lambda>dF_dlam.
      bind_err (cpf_p_jac parameterization z V lam Vprv lamprv pv pq pvpq) (\<lambda>(dP_dV, dP_dlam).
      let dx = map uminus (spsolve (augment J dF_dlam dP_dV dP_dlam) F) in
      bind_err (if npv \<noteq> 0 then add_at Va pv (slice dx j1 j2) else Inr Va) (\<lambda>Va1.
      bind_err (if npq \<noteq> 0 then add_at Va1 pq (slice dx j3 j4) else Inr Va1) (\<lambda>Va2.
      bind_err (if npq \<noteq> 0 then add_at Vm pq (slice dx j5 j6) else Inr Vm) (\<lambda>Vm2.
      bind_err (index_elem (slice dx j7 j8) 0) (\<lambda>dlam.
      Inr (polar Vm2 Va2, lam + dlam)))))))))"

text \<open>
  The Newton loop (lines 346 to 407). The loop state is \<open>(V, lam, F, normF, converged)\<close>
  and the counter \<open>i\<close>; the loop runs while \<open>not converged and i < max_it\<close>.
\<close>

type_synonym corrector_state = "complex list \<times> real \<times> real list \<times> real \<times> bool"

definition newton_iteration ::
  "solver \<Rightarrow> complex list list \<Rightarrow> complex list \<Rightarrow> int list \<Rightarrow> int list \<Rightarrow>
   complex list \<Rightarrow> complex list \<Rightarrow> real \<Rightarrow> real list \<Rightarrow> real \<Rightarrow> int \<Rightarrow> real \<Rightarrow>
   corrector_state \<Rightarrow> py_error + corrector_state" where
  "newton_iteration spsolve Ybus Sbus pv pq Sxfr Vprv lamprv z step parameterization tol st =
     (case st of (V, lam, F, normF, converged) \<Rightarrow>
      bind_err (newton_update spsolve Ybus V pv pq lam Sxfr Vprv lamprv z parameterization F)
        (\<lambda>(V', lam').
      bind_err (augmented_mismatch Ybus Sbus V' pv pq lam' Sxfr Vprv lamprv z step parameterization)
        (\<lambda>F'.
      let normF' = norm_inf F' in Inr (V', lam', F', normF', normF' < tol))))"

function corrector_loop ::
  "solver \<Rightarrow> complex list list \<Rightarrow> complex list \<Rightarrow> int list \<Rightarrow> int list \<Rightarrow>
   complex list \<Rightarrow> complex list \<Rightarrow> real \<Rightarrow> real list \<Rightarrow> real \<Rightarrow> int \<Rightarrow> real \<Rightarrow> int \<Rightarrow>
   int \<Rightarrow> corrector_state \<Rightarrow> py_error + (int \<times> corrector_state)" where
  "corrector_loop spsolve Ybus Sbus pv pq Sxfr Vprv lamprv z step parameterization tol max_it i st =
     (if \<not> snd (snd (snd (snd st))) \<and> i < max_it then
        (case newton_iteration spsolve Ybus Sbus pv pq Sxfr Vprv lamprv z step parameterization tol st of
           Inl e \<Rightarrow> Inl e
         | Inr st' \<Rightarrow>
             corrector_loop spsolve Ybus Sbus pv pq Sxfr Vprv lamprv z step parameterization tol
               max_it (i + 1) st')
      else Inr (i, st))"
  by pat_completeness auto
termination
  by (relation "measure (\<lambda>(spsolve, Ybus, Sbus, pv, pq, Sxfr, Vprv, lamprv, z, step,
        parameterization, tol, max_it, i, st). nat (max_it - i))") auto

text \<open>
  The loop state when the loop is reached (lines 284 to 344): the trial point, its
  augmented mismatch and the first tolerance check.
\<close>

definition corrector_start ::
  "complex list list \<Rightarrow> complex list \<Rightarrow> complex list \<Rightarrow> int list \<Rightarrow> int list \<Rightarrow> real \<Rightarrow>
   complex list \<Rightarrow> complex list \<Rightarrow> real \<Rightarrow> real list \<Rightarrow> real \<Rightarrow> int \<Rightarrow> real \<Rightarrow>
   py_error + corrector_state" where
  "corrector_start Ybus Sbus V0 pv pq lam0 Sxfr Vprv lamprv z step parameterization tol =
     bind_err (augmented_mismatch0 Ybus Sbus V0 pv pq lam0 Sxfr Vprv lamprv z step parameterization)
       (\<lambda>F.
     let normF = norm_inf F; converged = (normF < tol) in
     Inr (V0, lam0, F, normF, converged))"

text \<open>
  \<^verbatim>\<open>cpf_corrector\<close> (lines 235 to 413), returning \<open>(V, converged, i, lam, normF)\<close>.
  \<open>verbose\<close> only prints and is left out.
\<close>

definition cpf_corrector ::
  "solver \<Rightarrow> complex list list \<Rightarrow> complex list \<Rightarrow> complex list \<Rightarrow> int list \<Rightarrow> int list \<Rightarrow>
   real \<Rightarrow> complex list \<Rightarrow> complex list \<Rightarrow> real \<Rightarrow> real list \<Rightarrow> real \<Rightarrow> int \<Rightarrow> real \<Rightarrow> int \<Rightarrow>
   py_error + (complex list \<times> bool \<times> int \<times> real \<times> real)" where
  "cpf_corrector spsolve Ybus Sbus V0 pv pq lam0 Sxfr Vprv lamprv z step parameterization tol max_it =
     bind_err (corrector_start Ybus Sbus V0 pv pq lam0 Sxfr Vprv lamprv z step parameterization tol)
       (\<lambda>st.
     bind_err (corrector_loop spsolve Ybus Sbus pv pq Sxfr Vprv lamprv z step parameterization tol
                 max_it 0 st)
       (\<lambda>(i, V, lam, F, normF, converged). Inr (V, converged, i, lam, normF)))"

section \<open>The predictor\<close>

text \<open>
  \<^verbatim>\<open>cpf_predictor\<close> (lines 416 to 495) returns \<open>(V0, lam0, z)\<close>. The tangent is
  stored into \<open>z\<close> at \<^verbatim>\<open>r_[pvpq, nb+pq, 2*nb]\<close> and \<open>z\<close> is divided by its Euclidean
  norm; a zero norm makes every entry \<open>0/0\<close>. \<open>Va0\<close> and \<open>Vm0\<close> are aliases of
  \<open>Vaprv\<close> and \<open>Vmprv\<close>; each right-hand side is evaluated before its store.
\<close>

text \<open>
  The linear system of the predictor (lines 455 to 481): the augmented matrix and the
  right-hand side \<open>s\<close> that is 1 in the row of lambda.
\<close>

definition tangent_system ::
  "complex list \<Rightarrow> real \<Rightarrow> complex list list \<Rightarrow> complex list \<Rightarrow> int list \<Rightarrow> int list \<Rightarrow>
   real list \<Rightarrow> complex list \<Rightarrow> real \<Rightarrow> int \<Rightarrow> py_error + (real list list \<times> real list)" where
  "tangent_system V lam Ybus Sxfr pv pq z Vprv lamprv parameterization =
     (let npv = length pv; npq = length pq; pvpq = pv @ pq in
      bind_err (jacobian Ybus V pvpq pq) (\<lambda>J.
      bind_err (dF_dlam_of Sxfr pvpq pq) (\<lambda>dF_dlam.
      bind_err (cpf_p_jac parameterization z V lam Vprv lamprv pv pq pvpq) (\<lambda>(dP_dV, dP_dlam).
      Inr (augment J dF_dlam dP_dV dP_dlam,
           (replicate (npv + 2 * npq + 1) 0)[npv + 2 * npq := 1])))))"

text \<open>The solve, the normalisation and the prediction (lines 482 to 495).\<close>

definition cpf_predictor ::
  "solver \<Rightarrow> complex list \<Rightarrow> real \<Rightarrow> complex list list \<Rightarrow> complex list \<Rightarrow> int list \<Rightarrow> int list \<Rightarrow>
   real \<Rightarrow> real list \<Rightarrow> complex list \<Rightarrow> real \<Rightarrow> int \<Rightarrow>
   py_error + (complex list \<times> real \<times> real list)" where
  "cpf_predictor spsolve V lam Ybus Sxfr pv pq step z Vprv lamprv parameterization =
     (let nb = int (length V); pvpq = pv @ pq in
      bind_err (tangent_system V lam Ybus Sxfr pv pq z Vprv lamprv parameterization) (\<lambda>(Jaug, s).
      let Vaprv = angle V; Vmprv = abs_array V in
      bind_err (assign_array z (pvpq @ map (\<lambda>i. nb + i) pq @ [2 * nb]) (spsolve Jaug s)) (\<lambda>z1.
      if norm2 z1 = 0 then Inl NonFinite
      else
        let z2 = map (\<lambda>x. x / norm2 z1) z1 in
        bind_err (index_array Vaprv pvpq) (\<lambda>a.
        bind_err (index_array z2 pvpq) (\<lambda>za.
        bind_err (assign_array Vaprv pvpq (map2 (\<lambda>x t. x + step * t) a za)) (\<lambda>Va0.
        bind_err (index_array Vmprv pq) (\<lambda>m.
        bind_err (index_array z2 (map (\<lambda>i. nb + i) pq)) (\<lambda>zm.
        bind_err (assign_array Vmprv pq (map2 (\<lambda>x t. x + step * t) m zm)) (\<lambda>Vm0.
        bind_err (index_elem z2 (2 * nb)) (\<lambda>zl.
        let lam0 = lam + step * zl in
        Inr (polar Vm0 Va0, lam0, z2)))))))))))"

section \<open>The continuation driver\<close>

text \<open>
  \<open>stop_at\<close> is a string or a number. Strings are ASCII: \<^verbatim>\<open>str.upper\<close> maps the
  letters a to z to A to Z and leaves every other ASCII character as it is.
\<close>

datatype stop_target = StopName string | StopLambda real

definition upper_char :: "char \<Rightarrow> char" where
  "upper_char c =
     (let n = (of_char c :: nat) in if 97 \<le> n \<and> n \<le> 122 then char_of (n - 32) else c)"

definition upper :: "string \<Rightarrow> string" where
  "upper s = map upper_char s"

text \<open>
  The stopping rules (lines 861 to 895) on the accepted \<open>lam\<close>. They read and may change
  \<open>continuation\<close>, \<open>step\<close>, \<open>approximation_order\<close> and \<open>adapt_step\<close>, in this
  order in the tuple.
\<close>

definition stopping_rules ::
  "stop_target \<Rightarrow> real \<Rightarrow> real \<Rightarrow> bool \<times> real \<times> int \<times> bool \<Rightarrow>
   py_error + (bool \<times> real \<times> int \<times> bool)" where
  "stopping_rules stop_at lam lam_prev c =
     (case c of (continuation, step, approximation_order, adapt_step) \<Rightarrow>
      (case stop_at of
         StopName s \<Rightarrow>
           if upper s = ''FULL'' then
             (if \<bar>lam\<bar> < 1 / 10 ^ 8 then Inr (False, step, approximation_order, adapt_step)
              else if lam < lam_prev \<and> lam - step < 0 then Inr (continuation, lam, 1, False)
              else Inr c)
           else if upper s = ''NOSE'' then
             (if lam < lam_prev then Inr (False, step, approximation_order, adapt_step)
              else Inr c)
           else Inl (StopPointNotRecognised s)
       | StopLambda target \<Rightarrow>
           if lam < lam_prev then Inr (False, step, approximation_order, adapt_step)
           else if \<bar>target - lam\<bar> < 1 / 10 ^ 8 then Inr (False, step, approximation_order, adapt_step)
           else if lam + step > target then Inr (continuation, target - lam, 1, False)
           else Inr c))"

text \<open>
  The prediction error of line 899:
  \<^verbatim>\<open>norm(r_[angle(V[pq]), abs(V[pvpq]), lam] - r_[angle(V0[pq]), abs(V0[pvpq]), lam0], Inf)\<close>.
\<close>

definition cpf_error_of ::
  "complex list \<Rightarrow> real \<Rightarrow> complex list \<Rightarrow> real \<Rightarrow> int list \<Rightarrow> int list \<Rightarrow> py_error + real" where
  "cpf_error_of V lam V0 lam0 pq pvpq =
     bind_err (index_array V pq) (\<lambda>a1.
     bind_err (index_array V pvpq) (\<lambda>a2.
     bind_err (index_array V0 pq) (\<lambda>b1.
     bind_err (index_array V0 pvpq) (\<lambda>b2.
     Inr (norm_inf (vsub (angle a1 @ abs_array a2 @ [lam]) (angle b1 @ abs_array b2 @ [lam0])))))))"

text \<open>
  The step is a float: \<^verbatim>\<open>step * error_tol / cpf_error\<close> with \<open>cpf_error\<close> a numpy
  float that is zero gives \<open>inf\<close>, \<open>-inf\<close> or \<open>nan\<close> by the sign of the numerator, and the
  comparison with \<open>step_max\<close> or \<open>step_min\<close> that follows is a comparison of floats
  (\<open>inf\<close> exceeds every number, \<open>nan\<close> compares false).
\<close>

datatype npfloat = Finite real | PosInf | NegInf | NaN

definition np_divide :: "real \<Rightarrow> real \<Rightarrow> npfloat" where
  "np_divide x y =
     (if y = 0 then (if 0 < x then PosInf else if x < 0 then NegInf else NaN)
      else Finite (x / y))"

fun float_gt :: "npfloat \<Rightarrow> real \<Rightarrow> bool" where
  "float_gt (Finite x) y = (x > y)"
| "float_gt PosInf y = True"
| "float_gt NegInf y = False"
| "float_gt NaN y = False"

fun float_lt :: "npfloat \<Rightarrow> real \<Rightarrow> bool" where
  "float_lt (Finite x) y = (x < y)"
| "float_lt PosInf y = False"
| "float_lt NegInf y = True"
| "float_lt NaN y = False"

text \<open>The step adaptation of lines 901 to 911.\<close>

definition adapt_step_size :: "real \<Rightarrow> real \<Rightarrow> real \<Rightarrow> real \<Rightarrow> real \<Rightarrow> npfloat" where
  "adapt_step_size step error_tol cpf_error step_min step_max =
     (if cpf_error < error_tol then
        (let step' = np_divide (step * error_tol) cpf_error in
         if float_gt step' step_max then Finite step_max else step')
      else
        (let step' = np_divide (step * error_tol) cpf_error in
         if float_lt step' step_min then Finite step_min else step'))"

text \<open>
  The arguments of \<^verbatim>\<open>runcpf2\<close> that the loop only reads, and the variables it updates.
  \<open>normF\<close> and \<open>success\<close> are unbound until the first corrector call.
\<close>

record cpf_args =
  arg_Ybus :: "complex list list"
  arg_Sbus_base :: "complex list"
  arg_Sxfr :: "complex list"
  arg_pv :: "int list"
  arg_pq :: "int list"
  arg_pvpq :: "int list"
  arg_step_min :: real
  arg_step_max :: real
  arg_error_tol :: real
  arg_tol :: real
  arg_max_it :: int
  arg_stop_at :: stop_target

record cpf_state =
  st_V :: "complex list"
  st_lam :: real
  st_V_prev :: "complex list"
  st_lam_prev :: real
  st_continuation :: bool
  st_cont_steps :: nat
  st_z :: "real list"
  st_Voltage_series :: "complex list list"
  st_Lambda_series :: "real list"
  st_step :: real
  st_approximation_order :: int
  st_adapt_step :: bool
  st_normF :: "real option"
  st_success :: "bool option"

text \<open>
  The part of the loop body after an accepted corrector step (lines 851 to 911): append
  to the trajectory, apply the stopping rules, adapt the step.
\<close>

definition accept_step ::
  "cpf_args \<Rightarrow> complex list \<Rightarrow> real \<Rightarrow> cpf_state \<Rightarrow> py_error + cpf_state" where
  "accept_step args V0 lam0 st =
     (let V = st_V st; lam = st_lam st;
          st1 = st\<lparr>st_Voltage_series := st_Voltage_series st @ [V],
                   st_Lambda_series := st_Lambda_series st @ [lam]\<rparr> in
      bind_err (stopping_rules (arg_stop_at args) lam (st_lam_prev st)
                  (st_continuation st, st_step st, st_approximation_order st, st_adapt_step st))
        (\<lambda>(continuation, step, approximation_order, adapt_step).
      let st2 = st1\<lparr>st_continuation := continuation, st_step := step,
                    st_approximation_order := approximation_order,
                    st_adapt_step := adapt_step\<rparr> in
      if adapt_step \<and> continuation then
        bind_err (cpf_error_of V lam V0 lam0 (arg_pq args) (arg_pvpq args)) (\<lambda>cpf_error.
        case adapt_step_size step (arg_error_tol args) cpf_error
               (arg_step_min args) (arg_step_max args) of
          Finite step' \<Rightarrow> Inr (st2\<lparr>st_step := step'\<rparr>)
        | PosInf \<Rightarrow> Inl NonFinite
        | NegInf \<Rightarrow> Inl NonFinite
        | NaN \<Rightarrow> Inl NonFinite)
      else Inr st2))"

text \<open>
  One pass of the loop body (lines 833 to 911). \<^verbatim>\<open>break\<close> comes right after
  \<^verbatim>\<open>continuation = 0\<close>, so it is the end of the loop.
\<close>

definition runcpf2_body :: "solver \<Rightarrow> cpf_args \<Rightarrow> cpf_state \<Rightarrow> py_error + cpf_state" where
  "runcpf2_body spsolve args st =
     bind_err (cpf_predictor spsolve (st_V st) (st_lam st) (arg_Ybus args) (arg_Sxfr args)
                 (arg_pv args) (arg_pq args) (st_step st) (st_z st) (st_V_prev st) (st_lam_prev st)
                 (st_approximation_order st))
       (\<lambda>(V0, lam0, z).
     let V_prev = st_V st; lam_prev = st_lam st in
     bind_err (cpf_corrector spsolve (arg_Ybus args) (arg_Sbus_base args) V0 (arg_pv args)
                 (arg_pq args) lam0 (arg_Sxfr args) V_prev lam_prev z (st_step st)
                 (st_approximation_order st) (arg_tol args) (arg_max_it args))
       (\<lambda>(V, success, i, lam, normF).
     let st1 = st\<lparr>st_cont_steps := st_cont_steps st + 1, st_z := z,
                   st_V_prev := V_prev, st_lam_prev := lam_prev,
                   st_V := V, st_lam := lam,
                   st_normF := Some normF, st_success := Some success\<rparr> in
     if \<not> success then Inr (st1\<lparr>st_continuation := False\<rparr>)
     else accept_step args V0 lam0 st1))"

text \<open>
  \<^verbatim>\<open>while continuation:\<close> has no bound on the number of passes: the loop is a partial
  function, \<open>None\<close> when it runs forever.
\<close>

partial_function (option) runcpf2_loop ::
  "solver \<Rightarrow> cpf_args \<Rightarrow> cpf_state \<Rightarrow> (py_error + cpf_state) option" where
  "runcpf2_loop spsolve args st =
     (if st_continuation st then
        (case runcpf2_body spsolve args st of
           Inl e \<Rightarrow> Some (Inl e)
         | Inr st' \<Rightarrow> runcpf2_loop spsolve args st')
      else Some (Inr st))"

text \<open>The state after at most \<open>n\<close> passes of the loop.\<close>

fun runcpf2_passes :: "solver \<Rightarrow> cpf_args \<Rightarrow> nat \<Rightarrow> cpf_state \<Rightarrow> py_error + cpf_state" where
  "runcpf2_passes spsolve args 0 st = Inr st"
| "runcpf2_passes spsolve args (Suc n) st =
     (if st_continuation st then
        bind_err (runcpf2_body spsolve args st) (runcpf2_passes spsolve args n)
      else Inr st)"

text \<open>
  \<^verbatim>\<open>runcpf2\<close> (lines 766 to 913), returning
  \<open>(Voltage_series, Lambda_series, normF, success)\<close>. \<^verbatim>\<open>Sbus_target - Sbus_base\<close>
  needs vectors of one shape. \<open>verbose\<close> and the calls of \<^verbatim>\<open>print\<close> only print and are
  left out.
\<close>

definition runcpf2_init ::
  "complex list \<Rightarrow> complex list \<Rightarrow> real \<Rightarrow> int \<Rightarrow> bool \<Rightarrow> cpf_state" where
  "runcpf2_init Sbus_base V step approximation_order adapt_step =
     (let nb = length Sbus_base in
      \<lparr>st_V = V, st_lam = 0, st_V_prev = V, st_lam_prev = 0,
       st_continuation = True, st_cont_steps = 0,
       st_z = (replicate (2 * nb + 1) 0)[2 * nb := 1],
       st_Voltage_series = [], st_Lambda_series = [],
       st_step = step, st_approximation_order = approximation_order,
       st_adapt_step = adapt_step, st_normF = None, st_success = None\<rparr>)"

definition runcpf2_return ::
  "cpf_state \<Rightarrow> py_error + (complex list list \<times> real list \<times> real \<times> bool)" where
  "runcpf2_return st =
     (case (st_normF st, st_success st) of
        (Some normF, Some success) \<Rightarrow>
          Inr (st_Voltage_series st, st_Lambda_series st, normF, success)
      | _ \<Rightarrow> Inl UnboundLocalError)"

definition runcpf2_args ::
  "complex list list \<Rightarrow> complex list \<Rightarrow> complex list \<Rightarrow> int list \<Rightarrow> int list \<Rightarrow>
   real \<Rightarrow> real \<Rightarrow> real \<Rightarrow> real \<Rightarrow> int \<Rightarrow> stop_target \<Rightarrow> cpf_args" where
  "runcpf2_args Ybus Sbus_base Sbus_target pv pq step_min step_max error_tol tol max_it stop_at =
     \<lparr>arg_Ybus = Ybus, arg_Sbus_base = Sbus_base,
      arg_Sxfr = map2 (\<lambda>t b. t - b) Sbus_target Sbus_base,
      arg_pv = pv, arg_pq = pq, arg_pvpq = pv @ pq,
      arg_step_min = step_min, arg_step_max = step_max,
      arg_error_tol = error_tol, arg_tol = tol, arg_max_it = max_it,
      arg_stop_at = stop_at\<rparr>"

definition runcpf2 ::
  "solver \<Rightarrow> complex list list \<Rightarrow> complex list \<Rightarrow> complex list \<Rightarrow> complex list \<Rightarrow>
   int list \<Rightarrow> int list \<Rightarrow> real \<Rightarrow> int \<Rightarrow> bool \<Rightarrow> real \<Rightarrow> real \<Rightarrow> real \<Rightarrow> real \<Rightarrow> int \<Rightarrow>
   stop_target \<Rightarrow> (py_error + (complex list list \<times> real list \<times> real \<times> bool)) option" where
  "runcpf2 spsolve Ybus Sbus_base Sbus_target V pv pq step approximation_order adapt_step
     step_min step_max error_tol tol max_it stop_at =
     (if length Sbus_target = length Sbus_base then
        map_option (\<lambda>r. bind_err r runcpf2_return)
          (runcpf2_loop spsolve
             (runcpf2_args Ybus Sbus_base Sbus_target pv pq step_min step_max error_tol tol
                max_it stop_at)
             (runcpf2_init Sbus_base V step approximation_order adapt_step))
      else Some (Inl ValueError))"

section \<open>Notions the theorems are stated with\<close>

text \<open>
  The corrector state after \<open>k\<close> Newton iterations from \<open>st\<close>, convergence not looked
  at: the sequence of iterates the loop walks along.
\<close>

fun newton_iterate ::
  "solver \<Rightarrow> complex list list \<Rightarrow> complex list \<Rightarrow> int list \<Rightarrow> int list \<Rightarrow>
   complex list \<Rightarrow> complex list \<Rightarrow> real \<Rightarrow> real list \<Rightarrow> real \<Rightarrow> int \<Rightarrow> real \<Rightarrow>
   nat \<Rightarrow> corrector_state \<Rightarrow> py_error + corrector_state" where
  "newton_iterate spsolve Ybus Sbus pv pq Sxfr Vprv lamprv z step parameterization tol 0 st = Inr st"
| "newton_iterate spsolve Ybus Sbus pv pq Sxfr Vprv lamprv z step parameterization tol (Suc k) st =
     bind_err (newton_iteration spsolve Ybus Sbus pv pq Sxfr Vprv lamprv z step parameterization tol st)
       (newton_iterate spsolve Ybus Sbus pv pq Sxfr Vprv lamprv z step parameterization tol k)"

text \<open>
  The corrector state after \<open>k\<close> Newton iterations from the trial point, and whether
  the mismatch is below the tolerance there.
\<close>

definition corrector_iterate ::
  "solver \<Rightarrow> complex list list \<Rightarrow> complex list \<Rightarrow> complex list \<Rightarrow> int list \<Rightarrow> int list \<Rightarrow>
   real \<Rightarrow> complex list \<Rightarrow> complex list \<Rightarrow> real \<Rightarrow> real list \<Rightarrow> real \<Rightarrow> int \<Rightarrow> real \<Rightarrow> nat \<Rightarrow>
   py_error + corrector_state" where
  "corrector_iterate spsolve Ybus Sbus V0 pv pq lam0 Sxfr Vprv lamprv z step parameterization tol k =
     bind_err (corrector_start Ybus Sbus V0 pv pq lam0 Sxfr Vprv lamprv z step parameterization tol)
       (newton_iterate spsolve Ybus Sbus pv pq Sxfr Vprv lamprv z step parameterization tol k)"

definition below_tol :: "py_error + corrector_state \<Rightarrow> bool" where
  "below_tol r = (case r of Inl e \<Rightarrow> False | Inr (V, lam, F, normF, converged) \<Rightarrow> converged)"

text \<open>
  What the loop keeps true of its state: \<open>F\<close> is the augmented mismatch at
  \<open>(V, lam)\<close>, \<open>normF\<close> its infinity norm, \<open>converged\<close> the tolerance check, and
  \<open>V\<close> has one entry per bus.
\<close>

definition corrector_state_ok ::
  "complex list list \<Rightarrow> complex list \<Rightarrow> int list \<Rightarrow> int list \<Rightarrow> complex list \<Rightarrow>
   complex list \<Rightarrow> real \<Rightarrow> real list \<Rightarrow> real \<Rightarrow> int \<Rightarrow> real \<Rightarrow> corrector_state \<Rightarrow> bool" where
  "corrector_state_ok Ybus Sbus pv pq Sxfr Vprv lamprv z step parameterization tol st =
     (case st of (V, lam, F, normF, converged) \<Rightarrow>
        length V = length Vprv
        \<and> augmented_mismatch0 Ybus Sbus V pv pq lam Sxfr Vprv lamprv z step parameterization = Inr F
        \<and> normF = norm_inf F \<and> converged = (normF < tol))"

text \<open>
  The inputs the interface promises: an \<open>nb \<times> nb\<close> admittance matrix, vectors with one
  entry per bus, bus indices in \<open>0 .. nb-1\<close>; and a solver that answers with a vector of
  the shape of its right-hand side.
\<close>

definition network_ok ::
  "complex list list \<Rightarrow> complex list \<Rightarrow> complex list \<Rightarrow> complex list \<Rightarrow> complex list \<Rightarrow>
   int list \<Rightarrow> int list \<Rightarrow> bool" where
  "network_ok Ybus Sbus Sxfr V Vprv pv pq =
     (square_of (length V) Ybus \<and> length Sbus = length V \<and> length Sxfr = length V
      \<and> length Vprv = length V \<and> bus_indices (length V) pv \<and> bus_indices (length V) pq)"

definition solver_shape :: "solver \<Rightarrow> bool" where
  "solver_shape spsolve = (\<forall>J b. length (spsolve J b) = length b)"

text \<open>The product of a real matrix and a vector, to say that a solve is a solution.\<close>

definition real_mat_vec :: "real list list \<Rightarrow> real list \<Rightarrow> real list" where
  "real_mat_vec A x = map (\<lambda>row. sum_list (map2 (\<lambda>a b. a * b) row x)) A"

text \<open>
  The solver solves the linear system of the predictor, where there is one: it answers
  with a vector \<open>x\<close> of the shape of \<open>s\<close> such that \<open>Jaug x = s\<close>.
\<close>

definition solves_tangent_system ::
  "solver \<Rightarrow> complex list \<Rightarrow> real \<Rightarrow> complex list list \<Rightarrow> complex list \<Rightarrow> int list \<Rightarrow> int list \<Rightarrow>
   real list \<Rightarrow> complex list \<Rightarrow> real \<Rightarrow> int \<Rightarrow> bool" where
  "solves_tangent_system spsolve V lam Ybus Sxfr pv pq z Vprv lamprv parameterization =
     (case tangent_system V lam Ybus Sxfr pv pq z Vprv lamprv parameterization of
        Inl e \<Rightarrow> True
      | Inr (Jaug, s) \<Rightarrow>
          length (spsolve Jaug s) = length s \<and> real_mat_vec Jaug (spsolve Jaug s) = s)"

text \<open>
  The trial angle and magnitude of bus \<open>i\<close> as the specification gives them: the current
  value advanced by \<open>step\<close> along the tangent at the buses where it is an unknown.
\<close>

definition trial_angle :: "complex list \<Rightarrow> real \<Rightarrow> real list \<Rightarrow> int list \<Rightarrow> nat \<Rightarrow> real" where
  "trial_angle V step z pvpq i =
     (if int i \<in> set pvpq then Arg (V ! i) + step * z ! i else Arg (V ! i))"

definition trial_magnitude :: "complex list \<Rightarrow> real \<Rightarrow> real list \<Rightarrow> int list \<Rightarrow> nat \<Rightarrow> real" where
  "trial_magnitude V step z pq i =
     (if int i \<in> set pq then cmod (V ! i) + step * z ! (length V + i) else cmod (V ! i))"

text \<open>
  The prediction error as the specification words it: angles at the non-reference buses,
  magnitudes at the non-reference and the PQ buses, lambda.
\<close>

definition cpf_error_claimed ::
  "complex list \<Rightarrow> real \<Rightarrow> complex list \<Rightarrow> real \<Rightarrow> int list \<Rightarrow> int list \<Rightarrow> py_error + real" where
  "cpf_error_claimed V lam V0 lam0 pq pvpq =
     bind_err (index_array V pvpq) (\<lambda>a1.
     bind_err (index_array V (pvpq @ pq)) (\<lambda>a2.
     bind_err (index_array V0 pvpq) (\<lambda>b1.
     bind_err (index_array V0 (pvpq @ pq)) (\<lambda>b2.
     Inr (norm_inf (vsub (angle a1 @ abs_array a2 @ [lam]) (angle b1 @ abs_array b2 @ [lam0])))))))"

text \<open>
  The prediction error the code computes, bus by bus: the largest of the angle
  differences at the PQ buses, the magnitude differences at the PV and PQ buses, and the
  difference of lambda.
\<close>

definition prediction_error ::
  "complex list \<Rightarrow> real \<Rightarrow> complex list \<Rightarrow> real \<Rightarrow> int list \<Rightarrow> int list \<Rightarrow> real" where
  "prediction_error V lam V0 lam0 pq pvpq =
     Max ((\<lambda>i. \<bar>Arg (V ! nat i) - Arg (V0 ! nat i)\<bar>) ` set pq
          \<union> (\<lambda>i. \<bar>cmod (V ! nat i) - cmod (V0 ! nat i)\<bar>) ` set pvpq
          \<union> {\<bar>lam - lam0\<bar>})"

text \<open>The \<open>(V, lam)\<close> the driver holds after each of the first \<open>n\<close> passes of its loop.\<close>

fun trajectory :: "solver \<Rightarrow> cpf_args \<Rightarrow> nat \<Rightarrow> cpf_state \<Rightarrow> (complex list \<times> real) list" where
  "trajectory spsolve args 0 st = []"
| "trajectory spsolve args (Suc n) st =
     (case runcpf2_body spsolve args st of
        Inl e \<Rightarrow> []
      | Inr st' \<Rightarrow> (st_V st', st_lam st') # trajectory spsolve args n st')"

text \<open>
  A two-bus network for the examples: bus 0 is the reference bus, bus 1 a PQ bus, joined
  by one line of reactance 0.1; the flat voltage profile solves the base case with no
  injections, and the transfer goes to the reference bus. The augmented Jacobian is then
  diagonal, and \<open>solve_diagonal\<close> is the exact solver of a diagonal system.
\<close>

definition two_bus_Ybus :: "complex list list" where
  "two_bus_Ybus = [[- (10 * \<i>), 10 * \<i>], [10 * \<i>, - (10 * \<i>)]]"

definition solve_diagonal :: solver where
  "solve_diagonal J b = map (\<lambda>i. b ! i / J ! i ! i) [0..<length b]"

section \<open>Facts about the primitives\<close>

lemma bind_err_Inr [simp]: "bind_err (Inr x) f = f x"
  by (simp add: bind_err_def)

lemma bind_err_Inl [simp]: "bind_err (Inl e) f = Inl e"
  by (simp add: bind_err_def)

lemma bind_err_eq_Inr:
  "bind_err m f = Inr y \<longleftrightarrow> (\<exists>x. m = Inr x \<and> f x = Inr y)"
  by (cases m) simp_all

lemma np_index_bus [simp]: "0 \<le> i \<Longrightarrow> i < int n \<Longrightarrow> np_index n i = Inr (nat i)"
  by (simp add: np_index_def)

lemma index_array_bus:
  "bus_indices (length xs) idx \<Longrightarrow> index_array xs idx = Inr (map (\<lambda>i. xs ! nat i) idx)"
  by (induction idx) (simp_all add: bus_indices_def)

lemma index_array_error: "index_array xs idx = Inl e \<Longrightarrow> e = IndexError"
proof (induction idx arbitrary: e)
  case Nil
  then show ?case by simp
next
  case (Cons i idx)
  show ?case
  proof (cases "np_index (length xs) i")
    case (Inl e')
    with Cons.prems show ?thesis
      by (auto simp: np_index_def split: if_splits)
  next
    case (Inr k)
    with Cons show ?thesis
      by (cases "index_array xs idx") auto
  qed
qed

lemma index_array_length: "index_array xs idx = Inr ys \<Longrightarrow> length ys = length idx"
  by (induction idx arbitrary: ys) (auto simp: bind_err_eq_Inr)

lemma index_array_append_Inr:
  "index_array xs (is1 @ is2) = Inr ys \<Longrightarrow>
     \<exists>ys1 ys2. index_array xs is1 = Inr ys1 \<and> index_array xs is2 = Inr ys2 \<and> ys = ys1 @ ys2"
  by (induction is1 arbitrary: ys) (auto simp: bind_err_eq_Inr)

lemma index_array_past_end:
  assumes "int (length xs) \<le> k"
  shows "index_array xs (idx @ [k]) = Inl IndexError"
proof (cases "index_array xs (idx @ [k])")
  case (Inl e)
  then show ?thesis by (simp add: index_array_error)
next
  case (Inr ys)
  then obtain ys2 where "index_array xs [k] = Inr ys2"
    using index_array_append_Inr by blast
  with assms show ?thesis
    by (simp add: np_index_def bind_err_eq_Inr split: if_splits)
qed

lemma index_array_map_bus:
  "bus_indices (length xs) idx \<Longrightarrow>
     index_array (map f xs) idx = Inr (map (\<lambda>i. f (xs ! nat i)) idx)"
  by (induction idx) (auto simp: bus_indices_def nat_less_iff)

lemma vsub_single [simp]: "vsub [x] [y] = [x - y]"
  by (simp add: vsub_def)

lemma vsub_append:
  "length a1 = length b1 \<Longrightarrow> vsub (a1 @ a2) (b1 @ b2) = vsub a1 b1 @ vsub a2 b2"
  by (simp add: vsub_def)

lemma vsub_map: "vsub (map f xs) (map g xs) = map (\<lambda>x. f x - g x) xs"
  by (simp add: vsub_def zip_map_map zip_same_conv_map)

lemma Arg_one_eq [simp]: "Arg 1 = 0"
  by (rule cis_Arg_unique) (simp_all add: sgn_eq)

section \<open>The parameterization function: theorems\<close>

text \<open>
  C10. For a parameterization value outside 1, 2, 3 neither \<open>cpf_p\<close> nor \<open>cpf_p_jac\<close>
  returns a result: both fall through every branch and fail at the return statement with
  an unbound local variable.
\<close>

theorem cpf_p_unknown_mode_unbound:
  assumes "parameterization \<noteq> 1" "parameterization \<noteq> 2" "parameterization \<noteq> 3"
  shows "cpf_p parameterization step z V lam Vprv lamprv pv pq pvpq = Inl UnboundLocalError
       \<and> cpf_p_jac parameterization z V lam Vprv lamprv pv pq pvpq = Inl UnboundLocalError"
  using assms by (simp add: cpf_p_def cpf_p_jac_def)

theorem cpf_p_unknown_mode_unbound_witness:
  "cpf_p 0 (1/10) [0, 0, 0, 0, 1] [1, 1] 0 [1, 1] 0 [] [1] [1] = Inl UnboundLocalError
   \<and> cpf_p_jac 4 [0, 0, 0, 0, 1] [1, 1] 0 [1, 1] 0 [] [1] [1] = Inl UnboundLocalError"
  using cpf_p_unknown_mode_unbound [of 0 "1/10" "[0, 0, 0, 0, 1]" "[1, 1]" 0 "[1, 1]" 0 "[]" "[1]" "[1]"]
        cpf_p_unknown_mode_unbound [of 4 "1/10" "[0, 0, 0, 0, 1]" "[1, 1]" 0 "[1, 1]" 0 "[]" "[1]" "[1]"]
  by simp

text \<open>
  C1. Pseudo arc-length mode. The tangent vector has \<open>2 nb + 1\<close> entries, so its last
  index is \<open>2 nb\<close> (where the predictor stores the lambda component); \<open>cpf_p\<close> and
  \<open>cpf_p_jac\<close> read index \<open>2 nb + 1\<close> and raise IndexError instead of returning the
  residual and the slice of \<open>z\<close>.
\<close>

theorem cpf_p_pseudo_arc_length_raises:
  assumes "length z = 2 * length V + 1"
  shows "cpf_p 3 step z V lam Vprv lamprv pv pq pvpq = Inl IndexError
       \<and> cpf_p_jac 3 z V lam Vprv lamprv pv pq pvpq = Inl IndexError"
proof
  have "index_array z ((pv @ pq @ map (\<lambda>i. int (length V) + i) pq) @ [2 * int (length V) + 1])
          = Inl IndexError"
    by (rule index_array_past_end) (simp add: assms)
  then show "cpf_p 3 step z V lam Vprv lamprv pv pq pvpq = Inl IndexError"
    by (simp add: cpf_p_def Let_def)
next
  have "index_elem z (2 * int (length V) + 1) = Inl IndexError"
    by (simp add: index_elem_def np_index_def assms)
  then show "cpf_p_jac 3 z V lam Vprv lamprv pv pq pvpq = Inl IndexError"
    by (cases "index_array z (pv @ pq @ map (\<lambda>i. int (length V) + i) pq)")
       (auto simp: cpf_p_jac_def Let_def dest: index_array_error)
qed

theorem cpf_p_pseudo_arc_length_raises_witness:
  "cpf_p 3 (1/10) [0, 0, 0, 0, 1] [1, 1] 0 [1, 1] 0 [] [1] [1] = Inl IndexError
   \<and> cpf_p_jac 3 [0, 0, 0, 0, 1] [1, 1] 0 [1, 1] 0 [] [1] [1] = Inl IndexError"
  using cpf_p_pseudo_arc_length_raises [of "[0, 0, 0, 0, 1]" "[1, 1]" "1/10" 0 "[1, 1]" 0 "[]" "[1]" "[1]"]
  by simp

text \<open>
  C9. Arc-length mode. With bus indices in range, \<open>cpf_p\<close> returns the sum of the squared
  differences of the angles at the non-reference buses, the magnitudes at the PQ buses and
  lambda against the previous solution, less the squared step, and \<open>cpf_p_jac\<close> returns
  twice those differences, with 1 in place of the lambda entry when lambda has not moved.
\<close>

theorem cpf_p_arc_length:
  assumes "bus_indices (length V) pvpq" "bus_indices (length V) pq" "length Vprv = length V"
  shows "cpf_p 2 step z V lam Vprv lamprv pv pq pvpq
           = Inr (arc_length_residual step V lam Vprv lamprv pvpq pq)
       \<and> cpf_p_jac 2 z V lam Vprv lamprv pv pq pvpq
           = Inr (arc_length_gradient V lam Vprv lamprv pvpq pq)"
proof -
  have a1: "index_array (angle V) pvpq = Inr (map (\<lambda>i. Arg (V ! nat i)) pvpq)"
    and a2: "index_array (abs_array V) pq = Inr (map (\<lambda>i. cmod (V ! nat i)) pq)"
    unfolding angle_def abs_array_def using assms by (simp_all add: index_array_map_bus)
  have b1: "index_array (angle Vprv) pvpq = Inr (map (\<lambda>i. Arg (Vprv ! nat i)) pvpq)"
    and b2: "index_array (abs_array Vprv) pq = Inr (map (\<lambda>i. cmod (Vprv ! nat i)) pq)"
    unfolding angle_def abs_array_def using assms by (simp_all add: index_array_map_bus)
  show ?thesis
    by (simp add: cpf_p_def cpf_p_jac_def Let_def a1 a2 b1 b2 vsub_append vsub_map
        arc_length_residual_def arc_length_gradient_def comp_def)
qed

theorem cpf_p_arc_length_witness:
  "bus_indices (length [1, \<i>]) [1] \<and> length [1, 1 :: complex] = length [1, \<i>]
   \<and> cpf_p 2 (1/10) [0, 0, 0, 0, 1] [1, \<i>] (1/5) [1, 1] 0 [] [1] [1]
         = Inr ((pi/2)\<^sup>2 + 3/100)
   \<and> cpf_p_jac 2 [0, 0, 0, 0, 1] [1, \<i>] (1/5) [1, 1] 0 [] [1] [1] = Inr ([pi, 0], 2/5)"
  using cpf_p_arc_length [of "[1, \<i>]" "[1]" "[1]" "[1, 1]" "1/10" "[0, 0, 0, 0, 1]" "1/5" 0 "[]"]
  by (simp add: bus_indices_def arc_length_residual_def arc_length_gradient_def power2_eq_square)

section \<open>The corrector: theorems\<close>

lemma bus_indices_append [simp]:
  "bus_indices n (xs @ ys) \<longleftrightarrow> bus_indices n xs \<and> bus_indices n ys"
  by (simp add: bus_indices_def)

lemma index_nats_bus: "bus_indices n idx \<Longrightarrow> index_nats n idx = Inr (map nat idx)"
  by (induction idx) (simp_all add: bus_indices_def)

lemma store_all_length [simp]: "length (store_all xs kvs) = length xs"
  by (induction xs kvs rule: store_all.induct) simp_all

lemma assign_array_bus:
  "bus_indices (length xs) idx \<Longrightarrow> length vals = length idx \<Longrightarrow>
     assign_array xs idx vals = Inr (store_all xs (zip (map nat idx) vals))"
  by (simp add: assign_array_def index_nats_bus)

lemma add_at_bus:
  assumes "bus_indices (length xs) idx" "length vals = length idx"
  shows "\<exists>ys. add_at xs idx vals = Inr ys \<and> length ys = length xs"
  using assms by (simp add: add_at_def index_array_bus assign_array_bus)

lemma index_array_append:
  "index_array xs (is1 @ is2) =
     bind_err (index_array xs is1) (\<lambda>ys1. bind_err (index_array xs is2) (\<lambda>ys2. Inr (ys1 @ ys2)))"
proof (induction is1)
  case Nil
  show ?case by (cases "index_array xs is2") simp_all
next
  case (Cons i is1)
  show ?case
    by (cases "np_index (length xs) i"; cases "index_array xs is1"; cases "index_array xs is2")
       (simp_all add: Cons)
qed

lemma augmented_mismatch_eq:
  "augmented_mismatch Ybus Sbus V pv pq lam Sxfr Vprv lamprv z step parameterization
     = augmented_mismatch0 Ybus Sbus V pv pq lam Sxfr Vprv lamprv z step parameterization"
proof (cases "power_mismatch Ybus Sbus V lam Sxfr")
  case (Inl e)
  then show ?thesis by (simp add: augmented_mismatch_def augmented_mismatch0_def)
next
  case (Inr mis)
  then show ?thesis
    by (cases "index_array mis pv"; cases "index_array mis pq")
       (simp_all add: augmented_mismatch_def augmented_mismatch0_def index_array_append)
qed

lemma power_mismatch_ok:
  assumes "square_of (length V) Ybus" "length Sbus = length V" "length Sxfr = length V"
  shows "\<exists>mis. power_mismatch Ybus Sbus V lam Sxfr = Inr mis \<and> length mis = length V"
  using assms by (simp add: power_mismatch_def mat_vec_def square_of_def)

lemma cpf_p_ok:
  assumes "parameterization = 1 \<or> parameterization = 2"
    "bus_indices (length V) pv" "bus_indices (length V) pq" "length Vprv = length V"
  shows "\<exists>P. cpf_p parameterization step z V lam Vprv lamprv pv pq (pv @ pq) = Inr P"
  using assms
  by (auto simp: cpf_p_def Let_def angle_def abs_array_def index_array_bus)

lemma cpf_p_jac_ok:
  assumes "parameterization = 1 \<or> parameterization = 2"
    "bus_indices (length V) pv" "bus_indices (length V) pq" "length Vprv = length V"
  shows "\<exists>g d. cpf_p_jac parameterization z V lam Vprv lamprv pv pq (pv @ pq) = Inr (g, d)"
  using assms
  by (auto simp: cpf_p_jac_def Let_def angle_def abs_array_def index_array_bus)

lemma augmented_mismatch0_ok:
  assumes "network_ok Ybus Sbus Sxfr V Vprv pv pq" "parameterization = 1 \<or> parameterization = 2"
  shows "\<exists>F. augmented_mismatch0 Ybus Sbus V pv pq lam Sxfr Vprv lamprv z step parameterization = Inr F
            \<and> length F = length pv + 2 * length pq + 1"
proof -
  from assms obtain mis where mis: "power_mismatch Ybus Sbus V lam Sxfr = Inr mis" "length mis = length V"
    using power_mismatch_ok unfolding network_ok_def by blast
  from assms obtain P where P: "cpf_p parameterization step z V lam Vprv lamprv pv pq (pv @ pq) = Inr P"
    using cpf_p_ok unfolding network_ok_def by blast
  from assms mis show ?thesis
    by (simp add: augmented_mismatch0_def mis P index_array_bus network_ok_def)
qed

lemma jacobian_ok:
  assumes "square_of (length V) Ybus" "bus_indices (length V) pvpq" "bus_indices (length V) pq"
  shows "\<exists>J. jacobian Ybus V pvpq pq = Inr J"
  using assms by (simp add: jacobian_def dSbus_dV_def Let_def index_matrix_def index_nats_bus)

lemma dF_dlam_of_ok:
  assumes "bus_indices (length Sxfr) pvpq" "bus_indices (length Sxfr) pq"
  shows "\<exists>d. dF_dlam_of Sxfr pvpq pq = Inr d"
  using assms by (simp add: dF_dlam_of_def index_array_bus)

lemma index_elem_zero: "0 < length xs \<Longrightarrow> index_elem xs 0 = Inr (xs ! 0)"
  by (simp add: index_elem_def np_index_def)

lemma polar_length [simp]: "length (polar Vm Va) = min (length Vm) (length Va)"
  by (simp add: polar_def)

lemma newton_update_ok:
  assumes net: "network_ok Ybus Sbus Sxfr V Vprv pv pq"
    and par: "parameterization = 1 \<or> parameterization = 2"
    and sol: "solver_shape spsolve"
    and F: "length F = length pv + 2 * length pq + 1"
  shows "\<exists>V' lam'. newton_update spsolve Ybus V pv pq lam Sxfr Vprv lamprv z parameterization F
                      = Inr (V', lam') \<and> length V' = length V"
proof -
  from net obtain J where J: "jacobian Ybus V (pv @ pq) pq = Inr J"
    using jacobian_ok [of V Ybus "pv @ pq" pq] by (auto simp: network_ok_def)
  from net obtain d where d: "dF_dlam_of Sxfr (pv @ pq) pq = Inr d"
    using dF_dlam_of_ok [of Sxfr "pv @ pq" pq] by (auto simp: network_ok_def)
  from net par obtain g dl where g: "cpf_p_jac parameterization z V lam Vprv lamprv pv pq (pv @ pq) = Inr (g, dl)"
    using cpf_p_jac_ok unfolding network_ok_def by blast
  define dx where "dx = map uminus (spsolve (augment J d g dl) F)"
  have ldx: "length dx = length pv + 2 * length pq + 1"
    using sol F by (simp add: dx_def solver_shape_def)
  have pvb: "bus_indices (length (angle V)) pv" and pqb: "bus_indices (length (abs_array V)) pq"
    using net by (simp_all add: network_ok_def angle_def abs_array_def)
  obtain Va1 where Va1: "(if length pv \<noteq> 0 then add_at (angle V) pv (slice dx 0 (length pv))
                          else Inr (angle V)) = Inr Va1" "length Va1 = length V"
  proof (cases "length pv = 0")
    case True
    then show ?thesis using that by (simp add: angle_def)
  next
    case False
    have "length (slice dx 0 (length pv)) = length pv" using ldx by (simp add: slice_def)
    from add_at_bus [OF pvb this] False that show ?thesis by (auto simp: angle_def)
  qed
  obtain Va2 where Va2: "(if length pq \<noteq> 0 then add_at Va1 pq (slice dx (length pv) (length pv + length pq))
                          else Inr Va1) = Inr Va2" "length Va2 = length V"
  proof (cases "length pq = 0")
    case True
    then show ?thesis using that Va1 by simp
  next
    case False
    have l: "length (slice dx (length pv) (length pv + length pq)) = length pq"
      using ldx by (simp add: slice_def)
    have "bus_indices (length Va1) pq" using net Va1 by (simp add: network_ok_def)
    from add_at_bus [OF this l] False that Va1 show ?thesis by auto
  qed
  obtain Vm2 where Vm2: "(if length pq \<noteq> 0
       then add_at (abs_array V) pq (slice dx (length pv + length pq) (length pv + length pq + length pq))
       else Inr (abs_array V)) = Inr Vm2" "length Vm2 = length V"
  proof (cases "length pq = 0")
    case True
    then show ?thesis using that by (simp add: abs_array_def)
  next
    case False
    have l: "length (slice dx (length pv + length pq) (length pv + length pq + length pq)) = length pq"
      using ldx by (simp add: slice_def)
    from add_at_bus [OF pqb l] False that show ?thesis by (auto simp: abs_array_def)
  qed
  have "length (slice dx (length pv + length pq + length pq) (length pv + length pq + length pq + 1)) = 1"
    using ldx by (simp add: slice_def)
  then obtain dlam where dlam:
    "index_elem (slice dx (length pv + length pq + length pq) (length pv + length pq + length pq + 1)) 0 = Inr dlam"
    by (simp add: index_elem_zero)
  show ?thesis
    unfolding newton_update_def Let_def
    by (simp only: J d g bind_err_Inr prod.case dx_def [symmetric] Va1 Va2 Vm2 dlam)
       (simp add: Va2 Vm2)
qed

declare corrector_loop.simps [simp del]

lemma below_tol_Inr: "below_tol (Inr st) = snd (snd (snd (snd st)))"
  by (cases st) (auto simp: below_tol_def)

lemma corrector_loop_chain:
  assumes "corrector_loop spsolve Ybus Sbus pv pq Sxfr Vprv lamprv z step parameterization tol max_it i st
             = Inr (i', st')"
  shows "\<exists>k. i' = i + int k
           \<and> newton_iterate spsolve Ybus Sbus pv pq Sxfr Vprv lamprv z step parameterization tol k st = Inr st'
           \<and> (\<forall>j<k. \<not> below_tol (newton_iterate spsolve Ybus Sbus pv pq Sxfr Vprv lamprv z step
                                      parameterization tol j st))
           \<and> (below_tol (Inr st') \<or> max_it \<le> i') \<and> (0 < k \<longrightarrow> i' \<le> max_it)"
  using assms
proof (induction spsolve Ybus Sbus pv pq Sxfr Vprv lamprv z step parameterization tol max_it i st
       arbitrary: i' st' rule: corrector_loop.induct)
  case (1 spsolve Ybus Sbus pv pq Sxfr Vprv lamprv z step parameterization tol max_it i st)
  let ?NI = "newton_iteration spsolve Ybus Sbus pv pq Sxfr Vprv lamprv z step parameterization tol"
  let ?IT = "newton_iterate spsolve Ybus Sbus pv pq Sxfr Vprv lamprv z step parameterization tol"
  show ?case
  proof (cases "\<not> snd (snd (snd (snd st))) \<and> i < max_it")
    case False
    with "1.prems" have "i' = i" "st' = st"
      by (simp_all add: corrector_loop.simps [of _ _ _ _ _ _ _ _ _ _ _ _ _ i st])
    with False show ?thesis
      by (intro exI [of _ 0]) (auto simp: below_tol_Inr)
  next
    case True
    with "1.prems" obtain x where x: "?NI st = Inr x"
      and loop: "corrector_loop spsolve Ybus Sbus pv pq Sxfr Vprv lamprv z step parameterization tol
                   max_it (i + 1) x = Inr (i', st')"
      by (cases "?NI st") (simp_all add: corrector_loop.simps [of _ _ _ _ _ _ _ _ _ _ _ _ _ i st])
    from "1.IH" [OF True x loop] obtain k where k: "i' = i + 1 + int k" "?IT k x = Inr st'"
      "\<forall>j<k. \<not> below_tol (?IT j x)" "below_tol (Inr st') \<or> max_it \<le> i'" "0 < k \<longrightarrow> i' \<le> max_it"
      by blast
    have "\<not> below_tol (?IT j st)" if "j < Suc k" for j
    proof (cases j)
      case 0
      with True show ?thesis by (simp add: below_tol_Inr)
    next
      case (Suc j')
      with that k(3) x show ?thesis by simp
    qed
    moreover have "i' \<le> max_it"
    proof (cases k)
      case 0
      with k(1) True show ?thesis by simp
    next
      case (Suc n)
      with k(5) show ?thesis by simp
    qed
    ultimately show ?thesis
      using k x by (intro exI [of _ "Suc k"]) auto
  qed
qed

lemma network_ok_length:
  "network_ok Ybus Sbus Sxfr V Vprv pv pq \<Longrightarrow> length V' = length Vprv \<Longrightarrow>
     network_ok Ybus Sbus Sxfr V' Vprv pv pq"
  by (simp add: network_ok_def)

lemma newton_iteration_ok:
  assumes net: "network_ok Ybus Sbus Sxfr V0 Vprv pv pq"
    and par: "parameterization = 1 \<or> parameterization = 2"
    and sol: "solver_shape spsolve"
    and ok: "corrector_state_ok Ybus Sbus pv pq Sxfr Vprv lamprv z step parameterization tol st"
  shows "\<exists>st'. newton_iteration spsolve Ybus Sbus pv pq Sxfr Vprv lamprv z step parameterization tol st
                  = Inr st'
             \<and> corrector_state_ok Ybus Sbus pv pq Sxfr Vprv lamprv z step parameterization tol st'"
proof -
  obtain V lam F normF converged where st: "st = (V, lam, F, normF, converged)"
    by (cases st) auto
  from ok st have lV: "length V = length Vprv"
    and F: "augmented_mismatch0 Ybus Sbus V pv pq lam Sxfr Vprv lamprv z step parameterization = Inr F"
    by (simp_all add: corrector_state_ok_def)
  have netV: "network_ok Ybus Sbus Sxfr V Vprv pv pq"
    using network_ok_length [OF net lV] .
  from augmented_mismatch0_ok [OF netV par, of lam lamprv z step] F
  have lF: "length F = length pv + 2 * length pq + 1" by simp
  from newton_update_ok [OF netV par sol lF, of lam lamprv z]
  obtain V' lam' where up: "newton_update spsolve Ybus V pv pq lam Sxfr Vprv lamprv z parameterization F
                              = Inr (V', lam')" and lV': "length V' = length V"
    by blast
  have netV': "network_ok Ybus Sbus Sxfr V' Vprv pv pq"
    using network_ok_length [OF net] lV lV' by simp
  from augmented_mismatch0_ok [OF netV' par, of lam' lamprv z step]
  obtain F' where F': "augmented_mismatch0 Ybus Sbus V' pv pq lam' Sxfr Vprv lamprv z step parameterization
                         = Inr F'"
    by blast
  show ?thesis
    using lV lV' by (simp add: st newton_iteration_def up augmented_mismatch_eq F' Let_def
        corrector_state_ok_def)
qed

lemma newton_iterate_ok:
  assumes net: "network_ok Ybus Sbus Sxfr V0 Vprv pv pq"
    and par: "parameterization = 1 \<or> parameterization = 2"
    and sol: "solver_shape spsolve"
  shows "corrector_state_ok Ybus Sbus pv pq Sxfr Vprv lamprv z step parameterization tol st \<Longrightarrow>
     \<exists>st'. newton_iterate spsolve Ybus Sbus pv pq Sxfr Vprv lamprv z step parameterization tol k st
                  = Inr st'
             \<and> corrector_state_ok Ybus Sbus pv pq Sxfr Vprv lamprv z step parameterization tol st'"
proof (induction k arbitrary: st)
  case 0
  then show ?case by simp
next
  case (Suc k)
  from newton_iteration_ok [OF net par sol Suc.prems]
  obtain x where x: "newton_iteration spsolve Ybus Sbus pv pq Sxfr Vprv lamprv z step parameterization
                       tol st = Inr x"
    and okx: "corrector_state_ok Ybus Sbus pv pq Sxfr Vprv lamprv z step parameterization tol x"
    by blast
  from Suc.IH [OF okx] x show ?case by simp
qed

lemma corrector_loop_ok:
  assumes net: "network_ok Ybus Sbus Sxfr V0 Vprv pv pq"
    and par: "parameterization = 1 \<or> parameterization = 2"
    and sol: "solver_shape spsolve"
  shows "corrector_state_ok Ybus Sbus pv pq Sxfr Vprv lamprv z step parameterization tol st \<Longrightarrow>
     \<exists>r. corrector_loop spsolve Ybus Sbus pv pq Sxfr Vprv lamprv z step parameterization tol max_it i st
            = Inr r"
proof (induction "nat (max_it - i)" arbitrary: i st)
  case 0
  then have "corrector_loop spsolve Ybus Sbus pv pq Sxfr Vprv lamprv z step parameterization tol max_it i st
               = Inr (i, st)"
    by (subst corrector_loop.simps) simp
  then show ?case by blast
next
  case (Suc n)
  show ?case
  proof (cases "\<not> snd (snd (snd (snd st))) \<and> i < max_it")
    case False
    then have "corrector_loop spsolve Ybus Sbus pv pq Sxfr Vprv lamprv z step parameterization tol max_it i st
                 = Inr (i, st)"
      by (subst corrector_loop.simps) auto
    then show ?thesis by blast
  next
    case True
    from newton_iteration_ok [OF net par sol Suc.prems]
    obtain x where x: "newton_iteration spsolve Ybus Sbus pv pq Sxfr Vprv lamprv z step parameterization
                         tol st = Inr x"
      and okx: "corrector_state_ok Ybus Sbus pv pq Sxfr Vprv lamprv z step parameterization tol x"
      by blast
    have "n = nat (max_it - (i + 1))" using Suc.hyps(2) by simp
    from Suc.hyps(1) [OF this okx] obtain r where
      "corrector_loop spsolve Ybus Sbus pv pq Sxfr Vprv lamprv z step parameterization tol max_it
         (i + 1) x = Inr r"
      by blast
    with True x have "corrector_loop spsolve Ybus Sbus pv pq Sxfr Vprv lamprv z step parameterization tol
                        max_it i st = Inr r"
      by (subst corrector_loop.simps) simp
    then show ?thesis by blast
  qed
qed

text \<open>
  C6. If the augmented mismatch at the trial point \<open>(V0, lam0)\<close> (the real parts of the
  power mismatch at the non-reference buses, the imaginary parts at the PQ buses, and the
  parameterization residual) has infinity norm below \<open>tol\<close>, the corrector returns
  \<open>V0\<close> and \<open>lam0\<close> unchanged, converged, after 0 iterations.
\<close>

theorem cpf_corrector_converged_at_trial_point:
  assumes "augmented_mismatch0 Ybus Sbus V0 pv pq lam0 Sxfr Vprv lamprv z step parameterization = Inr F"
    and "norm_inf F < tol"
  shows "cpf_corrector spsolve Ybus Sbus V0 pv pq lam0 Sxfr Vprv lamprv z step parameterization tol max_it
           = Inr (V0, True, 0, lam0, norm_inf F)"
proof -
  have "corrector_loop spsolve Ybus Sbus pv pq Sxfr Vprv lamprv z step parameterization tol max_it 0
          (V0, lam0, F, norm_inf F, True) = Inr (0, V0, lam0, F, norm_inf F, True)"
    by (subst corrector_loop.simps) simp
  with assms show ?thesis
    by (simp add: cpf_corrector_def corrector_start_def Let_def)
qed

text \<open>
  C7, amended. For parameterization 1 or 2, a network of consistent shapes with bus
  indices in \<open>0 .. nb-1\<close> and a solver that answers with a vector of the shape of its
  right-hand side, the corrector returns, after \<open>k \<le> max_it\<close> Newton iterations (none when
  \<open>max_it\<close> is negative). The returned point is the \<open>k\<close>-th Newton iterate, \<open>normF\<close> is
  the infinity norm of the augmented mismatch there, no earlier iterate was below the
  tolerance, \<open>converged\<close> holds exactly when some iterate up to \<open>max_it\<close> is below the
  tolerance, and without convergence the count is \<open>max_it\<close>.
\<close>

theorem cpf_corrector_returns:
  assumes net: "network_ok Ybus Sbus Sxfr V0 Vprv pv pq"
    and par: "parameterization = 1 \<or> parameterization = 2"
    and sol: "solver_shape spsolve"
  shows "\<exists>V converged k lam F.
           cpf_corrector spsolve Ybus Sbus V0 pv pq lam0 Sxfr Vprv lamprv z step parameterization tol max_it
             = Inr (V, converged, int k, lam, norm_inf F)
           \<and> k \<le> nat max_it
           \<and> augmented_mismatch0 Ybus Sbus V pv pq lam Sxfr Vprv lamprv z step parameterization = Inr F
           \<and> converged = (norm_inf F < tol)
           \<and> corrector_iterate spsolve Ybus Sbus V0 pv pq lam0 Sxfr Vprv lamprv z step parameterization
                 tol k = Inr (V, lam, F, norm_inf F, converged)
           \<and> (\<forall>j<k. \<not> below_tol (corrector_iterate spsolve Ybus Sbus V0 pv pq lam0 Sxfr Vprv lamprv z
                                      step parameterization tol j))
           \<and> (converged \<longleftrightarrow>
                (\<exists>j. j \<le> nat max_it
                   \<and> below_tol (corrector_iterate spsolve Ybus Sbus V0 pv pq lam0 Sxfr Vprv lamprv z
                                  step parameterization tol j)))
           \<and> (\<not> converged \<longrightarrow> k = nat max_it)"
proof -
  let ?IT = "newton_iterate spsolve Ybus Sbus pv pq Sxfr Vprv lamprv z step parameterization tol"
  let ?CI = "corrector_iterate spsolve Ybus Sbus V0 pv pq lam0 Sxfr Vprv lamprv z step parameterization tol"
  from augmented_mismatch0_ok [OF net par, of lam0 lamprv z step]
  obtain F0 where F0: "augmented_mismatch0 Ybus Sbus V0 pv pq lam0 Sxfr Vprv lamprv z step parameterization
                         = Inr F0"
    by blast
  define st0 where "st0 = (V0, lam0, F0, norm_inf F0, norm_inf F0 < tol)"
  have start: "corrector_start Ybus Sbus V0 pv pq lam0 Sxfr Vprv lamprv z step parameterization tol = Inr st0"
    by (simp add: corrector_start_def F0 st0_def Let_def)
  have CI: "?CI j = ?IT j st0" for j
    by (simp add: corrector_iterate_def start)
  have ok0: "corrector_state_ok Ybus Sbus pv pq Sxfr Vprv lamprv z step parameterization tol st0"
    using net by (simp add: corrector_state_ok_def st0_def F0 network_ok_def)
  from corrector_loop_ok [OF net par sol ok0, of max_it 0]
  obtain r where "corrector_loop spsolve Ybus Sbus pv pq Sxfr Vprv lamprv z step parameterization
                               tol max_it 0 st0 = Inr r"
    by blast
  then obtain i' st' where loop: "corrector_loop spsolve Ybus Sbus pv pq Sxfr Vprv lamprv z step parameterization
                               tol max_it 0 st0 = Inr (i', st')"
    by (cases r) auto
  from corrector_loop_chain [OF loop]
  obtain k where k0: "i' = 0 + int k" and k: "?IT k st0 = Inr st'" "\<forall>j<k. \<not> below_tol (?IT j st0)"
    "below_tol (Inr st') \<or> max_it \<le> i'" "0 < k \<longrightarrow> i' \<le> max_it"
    by blast
  from k0 have k1: "i' = int k" by simp
  from newton_iterate_ok [OF net par sol ok0, of k] k(1)
  have ok': "corrector_state_ok Ybus Sbus pv pq Sxfr Vprv lamprv z step parameterization tol st'"
    by simp
  obtain V lam F normF converged where st': "st' = (V, lam, F, normF, converged)"
    by (cases st') auto
  from ok' st' have F: "augmented_mismatch0 Ybus Sbus V pv pq lam Sxfr Vprv lamprv z step parameterization
                          = Inr F"
    and nF: "normF = norm_inf F" and conv: "converged = (norm_inf F < tol)"
    by (simp_all add: corrector_state_ok_def)
  have res: "cpf_corrector spsolve Ybus Sbus V0 pv pq lam0 Sxfr Vprv lamprv z step parameterization tol max_it
               = Inr (V, converged, int k, lam, norm_inf F)"
    by (simp add: cpf_corrector_def start loop st' k1 nF)
  have kle: "k \<le> nat max_it"
    using k1 k(4) by (cases k) auto
  have bt: "below_tol (Inr st') = converged"
    by (simp add: st' below_tol_def)
  have last: "\<not> converged \<longrightarrow> k = nat max_it"
    using k1 k(3) kle bt by auto
  have none: "\<not> below_tol (?IT j st0)" if "j \<le> nat max_it" "\<not> converged" for j
  proof (cases "j < k")
    case True
    with k(2) show ?thesis by simp
  next
    case False
    with that last have "j = k" by simp
    with k(1) bt that show ?thesis by simp
  qed
  have iff: "converged \<longleftrightarrow> (\<exists>j. j \<le> nat max_it \<and> below_tol (?CI j))"
  proof
    assume converged
    with k(1) bt kle show "\<exists>j. j \<le> nat max_it \<and> below_tol (?CI j)"
      by (intro exI [of _ k]) (simp add: CI)
  next
    assume "\<exists>j. j \<le> nat max_it \<and> below_tol (?CI j)"
    then obtain j where "j \<le> nat max_it" "below_tol (?IT j st0)" by (auto simp: CI)
    with none show converged by blast
  qed
  have it: "?CI k = Inr (V, lam, F, norm_inf F, converged)"
    using k(1) by (simp add: CI st' nF)
  have first: "\<forall>j<k. \<not> below_tol (?CI j)"
    using k(2) by (simp add: CI)
  from res kle F conv it first iff last show ?thesis
    by blast
qed

lemma two_bus_mismatch:
  "power_mismatch two_bus_Ybus Sbus [1, 1] lam Sxfr =
     (if length Sbus = 2 \<and> length Sxfr = 2
      then Inr (map2 (\<lambda>(v, i) (s, x). v * cnj i - s - of_real lam * x) [(1, 0), (1, 0)] (zip Sbus Sxfr))
      else Inl ValueError)"
  by (simp add: power_mismatch_def two_bus_Ybus_def square_of_def mat_vec_def)

lemma two_bus_F0:
  "augmented_mismatch0 two_bus_Ybus [0, 0] [1, 1] [] [1] (1/10) [1, 0] [1, 1] 0 [0, 0, 0, 0, 1] (1/10) 1
     = Inr [0, 0, 0]"
  by (simp add: augmented_mismatch0_def two_bus_mismatch np_index_def cpf_p_def)

lemma norm_inf_zeros: "norm_inf [0, 0, 0] = 0"
  by (simp add: norm_inf_def)

theorem cpf_corrector_converged_at_trial_point_witness:
  "augmented_mismatch0 two_bus_Ybus [0, 0] [1, 1] [] [1] (1/10) [1, 0] [1, 1] 0 [0, 0, 0, 0, 1] (1/10) 1
     = Inr [0, 0, 0]
   \<and> norm_inf [0, 0, 0] < 1 / 10 ^ 6
   \<and> cpf_corrector solve_diagonal two_bus_Ybus [0, 0] [1, 1] [] [1] (1/10) [1, 0] [1, 1] 0
        [0, 0, 0, 0, 1] (1/10) 1 (1 / 10 ^ 6) 20 = Inr ([1, 1], True, 0, 1/10, 0)"
  using cpf_corrector_converged_at_trial_point [of two_bus_Ybus "[0, 0]" "[1, 1]" "[]" "[1]" "1/10"
          "[1, 0]" "[1, 1]" 0 "[0, 0, 0, 0, 1]" "1/10" 1 "[0, 0, 0]" "1 / 10 ^ 6" solve_diagonal 20]
  by (simp add: two_bus_F0 norm_inf_zeros)

lemma two_bus_network_ok: "network_ok two_bus_Ybus [0, 0] [1, 0] [1, 1] [1, 1] [] [1]"
  by (simp add: network_ok_def two_bus_Ybus_def square_of_def bus_indices_def)

lemma solve_diagonal_shape: "solver_shape solve_diagonal"
  by (simp add: solver_shape_def solve_diagonal_def)

theorem cpf_corrector_returns_witness:
  "network_ok two_bus_Ybus [0, 0] [1, 0] [1, 1] [1, 1] [] [1] \<and> solver_shape solve_diagonal
   \<and> (\<exists>V converged k lam F.
        cpf_corrector solve_diagonal two_bus_Ybus [0, 0] [1, 1] [] [1] (1/10) [1, 0] [1, 1] 0
          [0, 0, 0, 0, 1] (1/10) 1 (1 / 10 ^ 6) 20 = Inr (V, converged, int k, lam, norm_inf F)
        \<and> k \<le> 20 \<and> converged = (norm_inf F < 1 / 10 ^ 6))"
  using cpf_corrector_returns [OF two_bus_network_ok _ solve_diagonal_shape, of 1 "1/10" 0
          "[0, 0, 0, 0, 1]" "1/10" "1 / 10 ^ 6" 20]
  by (simp add: two_bus_network_ok solve_diagonal_shape) blast

text \<open>
  C7 as stated (``for every input \<dots> always returns'') fails: with a parameterization
  outside 1, 2, 3 the corrector raises at the first evaluation of the residual.
\<close>

theorem cpf_corrector_unknown_mode_raises:
  "cpf_corrector solve_diagonal two_bus_Ybus [0, 0] [1, 1] [] [1] (1/10) [1, 0] [1, 1] 0
     [0, 0, 0, 0, 1] (1/10) 0 (1 / 10 ^ 6) 20 = Inl UnboundLocalError"
  by (simp add: cpf_corrector_def corrector_start_def augmented_mismatch0_def two_bus_mismatch
      np_index_def cpf_p_def)

section \<open>The predictor: theorems\<close>

lemma upt2: "[0..<2] = [0, 1]"
  by (simp add: upt_rec)

lemma two_bus_dSbus_dV:
  "dSbus_dV two_bus_Ybus [1, 1]
     = Inr ([[10 * \<i>, - (10 * \<i>)], [- (10 * \<i>), 10 * \<i>]], [[10, - 10], [- 10, 10]])"
  by (simp add: dSbus_dV_def two_bus_Ybus_def square_of_def mat_vec_def Let_def diag_matrix_def
      mat_mul_def mat_add_def mat_sub_def mat_conj_def mat_scale_def upt2 complex_eq_iff)

lemma two_bus_jacobian: "jacobian two_bus_Ybus [1, 1] [1] [1] = Inr [[10, 0], [0, 10]]"
  by (simp add: jacobian_def two_bus_dSbus_dV index_matrix_def np_index_def hstack_def vstack_def)

lemma two_bus_tangent_system:
  "tangent_system [1, 1] lam two_bus_Ybus [1, 0] [] [1] z [1, 1] lamprv 1
     = Inr ([[10, 0, 0], [0, 10, 0], [0, 0, if lam \<ge> lamprv then 1 else - 1]], [0, 0, 1])"
  by (simp add: tangent_system_def two_bus_jacobian dF_dlam_of_def np_index_def cpf_p_jac_def
      augment_def hstack_def vstack_def numeral_3_eq_3)

lemma store_all_nth_other: "k \<notin> fst ` set kvs \<Longrightarrow> store_all xs kvs ! k = xs ! k"
  by (induction xs kvs rule: store_all.induct) auto

lemma store_all_map_nth:
  "i < length xs \<Longrightarrow> store_all xs (zip ks (map f ks)) ! i = (if i \<in> set ks then f i else xs ! i)"
  by (induction ks arbitrary: xs) auto

lemma store_all_distinct_nth:
  "distinct ks \<Longrightarrow> length vs = length ks \<Longrightarrow> \<forall>k\<in>set ks. k < length xs \<Longrightarrow> j < length ks \<Longrightarrow>
     store_all xs (zip ks vs) ! (ks ! j) = vs ! j"
proof (induction ks arbitrary: xs vs j)
  case Nil
  then show ?case by simp
next
  case (Cons k ks)
  then obtain v vs' where vs: "vs = v # vs'" by (cases vs) auto
  show ?case
  proof (cases j)
    case 0
    have "k \<notin> fst ` set (zip ks vs')" using Cons.prems(1) by (auto dest: set_zip_leftD)
    with Cons.prems 0 vs show ?thesis by (simp add: store_all_nth_other)
  next
    case (Suc j')
    with Cons vs show ?thesis by simp
  qed
qed

lemma norm2_zero_iff: "norm2 xs = 0 \<longleftrightarrow> (\<forall>x\<in>set xs. x = 0)"
proof -
  have "sum_list (map (\<lambda>x. x\<^sup>2) xs) = 0 \<longleftrightarrow> (\<forall>y\<in>set (map (\<lambda>x. x\<^sup>2) xs). y = 0)"
    by (rule sum_list_nonneg_eq_0_iff) auto
  then show ?thesis by (auto simp: norm2_def)
qed

lemma norm2_normalise:
  assumes "norm2 xs \<noteq> 0"
  shows "norm2 (map (\<lambda>x. x / norm2 xs) xs) = 1"
proof -
  let ?S = "sum_list (map (\<lambda>x. x\<^sup>2) xs)"
  have S0: "0 \<le> ?S" by (rule sum_list_nonneg) auto
  have n2: "(norm2 xs)\<^sup>2 = ?S" using S0 by (simp add: norm2_def)
  have Sne: "?S \<noteq> 0" using assms by (simp add: norm2_def)
  have "sum_list (map (\<lambda>x. (x / norm2 xs)\<^sup>2) xs) = (\<Sum>x\<leftarrow>xs. (1 / (norm2 xs)\<^sup>2) * x\<^sup>2)"
    by (simp add: power_divide)
  also have "\<dots> = (1 / (norm2 xs)\<^sup>2) * ?S" by (rule sum_list_const_mult)
  also have "\<dots> = 1" using Sne by (simp add: n2)
  finally show ?thesis by (simp add: norm2_def comp_def)
qed

lemma bus_indices_mono: "bus_indices n idx \<Longrightarrow> n \<le> m \<Longrightarrow> bus_indices m idx"
  by (induction idx) (auto simp: bus_indices_def)

lemma bus_indices_shift:
  "bus_indices n idx \<Longrightarrow> bus_indices (2 * n + 1) (map (\<lambda>i. int n + i) idx)"
  by (induction idx) (auto simp: bus_indices_def)

lemma bus_indices_nat_set: "bus_indices n idx \<Longrightarrow> (k \<in> nat ` set idx) = (int k \<in> set idx)"
  by (induction idx) (auto simp: bus_indices_def)

lemma bus_indices_nat_less: "bus_indices n idx \<Longrightarrow> \<forall>k\<in>set (map nat idx). k < n"
  by (induction idx) (auto simp: bus_indices_def nat_less_iff)

lemma tangent_index_ok:
  assumes "bus_indices n (pv @ pq)"
  shows "bus_indices (2 * n + 1) ((pv @ pq) @ map (\<lambda>i. int n + i) pq @ [2 * int n])"
  using assms bus_indices_mono [of n "pv @ pq" "2 * n + 1"] bus_indices_shift [of n pq]
  by (simp add: bus_indices_def)

lemma tangent_index_distinct:
  assumes "bus_indices n (pv @ pq)" "distinct (pv @ pq)"
  shows "distinct (map nat ((pv @ pq) @ map (\<lambda>i. int n + i) pq @ [2 * int n]))"
proof -
  let ?ix = "(pv @ pq) @ map (\<lambda>i. int n + i) pq @ [2 * int n]"
  have pos: "\<forall>i\<in>set ?ix. 0 \<le> i"
    using assms(1) by (auto simp: bus_indices_def list_all_iff)
  have inj: "inj_on nat (set ?ix)"
  proof (rule inj_onI)
    fix x y assume xy: "x \<in> set ?ix" "y \<in> set ?ix" and eq: "nat x = nat y"
    from pos xy have "0 \<le> x" "0 \<le> y" by blast+
    with eq show "x = y" by (simp add: eq_nat_nat_iff)
  qed
  have d1: "distinct (map (\<lambda>i. int n + i) pq)"
    using assms(2) by (simp add: distinct_map inj_on_def)
  have bv: "0 \<le> i \<and> i < int n" if "i \<in> set pv" for i
    using assms(1) that by (auto simp: bus_indices_def list_all_iff)
  have bq: "0 \<le> i \<and> i < int n" if "i \<in> set pq" for i
    using assms(1) that by (auto simp: bus_indices_def list_all_iff)
  have sh: "int n + j \<notin> set pv \<and> int n + j \<notin> set pq" if "j \<in> set pq" for j
    using bv [of "int n + j"] bq [of "int n + j"] bq [OF that] by auto
  have top: "2 * int n \<notin> set pv \<and> 2 * int n \<notin> set pq \<and> 2 * int n \<notin> (\<lambda>i. int n + i) ` set pq"
    using bv [of "2 * int n"] bq [of "2 * int n"] bq [of "int n"] by auto
  have "distinct ?ix"
    using assms(2) d1 sh top by auto
  with inj show ?thesis by (simp only: distinct_map)
qed

lemma tangent_system_ok:
  assumes "parameterization = 1 \<or> parameterization = 2"
    "square_of (length V) Ybus" "length Sxfr = length V" "length Vprv = length V"
    "bus_indices (length V) (pv @ pq)"
  shows "\<exists>Jaug. tangent_system V lam Ybus Sxfr pv pq z Vprv lamprv parameterization
           = Inr (Jaug, (replicate (length pv + 2 * length pq + 1) 0)[length pv + 2 * length pq := 1])"
proof -
  from assms obtain J where J: "jacobian Ybus V (pv @ pq) pq = Inr J"
    using jacobian_ok [of V Ybus "pv @ pq" pq] by auto
  from assms obtain d where d: "dF_dlam_of Sxfr (pv @ pq) pq = Inr d"
    using dF_dlam_of_ok [of Sxfr "pv @ pq" pq] by auto
  from assms obtain g dl where g: "cpf_p_jac parameterization z V lam Vprv lamprv pv pq (pv @ pq) = Inr (g, dl)"
    using cpf_p_jac_ok [of parameterization V pv pq Vprv z lam lamprv] by auto
  show ?thesis
    unfolding tangent_system_def Let_def
    by (simp only: J d g bind_err_Inr prod.case) blast
qed

lemma sum_list_map2_zero:
  "\<forall>v\<in>set x. v = (0::real) \<Longrightarrow> sum_list (map2 (\<lambda>a b. a * b) row x) = 0"
proof (induction row arbitrary: x)
  case Nil
  then show ?case by simp
next
  case (Cons a row)
  then show ?case by (cases x) auto
qed

lemma real_mat_vec_zero:
  assumes "\<forall>v\<in>set x. v = 0" "j < length A"
  shows "real_mat_vec A x ! j = 0"
  using assms by (simp add: real_mat_vec_def sum_list_map2_zero)

lemma solution_nonzero:
  assumes "real_mat_vec A x = (replicate (n + 1) 0)[n := 1]"
  shows "\<exists>j<length x. x ! j \<noteq> 0"
proof (rule ccontr)
  assume "\<not> (\<exists>j<length x. x ! j \<noteq> 0)"
  then have z: "\<forall>v\<in>set x. v = 0" by (auto simp: in_set_conv_nth)
  have "length A = n + 1" using assms by (metis length_list_update length_map length_replicate real_mat_vec_def)
  then have "real_mat_vec A x ! n = 0" using real_mat_vec_zero [OF z, of n A] by simp
  moreover have "(replicate (n + 1) (0::real))[n := 1] ! n = 1"
    by (rule nth_list_update_eq) simp
  ultimately show False using assms by (metis zero_neq_one)
qed

lemma map2_map_map: "map2 f (map g xs) (map h xs) = map (\<lambda>x. f (g x) (h x)) xs"
  by (simp add: zip_map_map zip_same_conv_map)

lemma advance_store:
  assumes "bus_indices (length xs) idx" "i < length xs"
  shows "store_all (map f xs) (zip (map nat idx) (map (\<lambda>j. f (xs ! nat j) + step * g (nat j)) idx)) ! i
           = (if int i \<in> set idx then f (xs ! i) + step * g i else f (xs ! i))"
proof -
  have "map (\<lambda>j. f (xs ! nat j) + step * g (nat j)) idx
          = map (\<lambda>k. f (xs ! k) + step * g k) (map nat idx)"
    by simp
  then show ?thesis
    using assms by (simp add: store_all_map_nth bus_indices_nat_set del: map_map)
qed

text \<open>
  C5, amended. For parameterization 1 or 2, a network of consistent shapes, distinct bus
  indices in \<open>0 .. nb-1\<close>, a tangent vector of \<open>2 nb + 1\<close> entries and a solver that
  returns a solution of the predictor's linear system, the predictor returns a tangent
  vector \<open>z\<close> of Euclidean norm 1 and the trial point that advances the current solution
  by \<open>step\<close> along it: the angle by \<open>step z[i]\<close> at the non-reference buses, the magnitude
  by \<open>step z[nb + i]\<close> at the PQ buses, lambda by \<open>step z[2 nb]\<close>, and \<open>V0\<close> is
  \<open>Vm0 exp(j Va0)\<close>.
\<close>

theorem cpf_predictor_unit_tangent:
  assumes par: "parameterization = 1 \<or> parameterization = 2"
    and shape: "square_of (length V) Ybus" "length Sxfr = length V" "length Vprv = length V"
    and idx: "bus_indices (length V) (pv @ pq)" "distinct (pv @ pq)"
    and lz: "length z = 2 * length V + 1"
    and sol: "solves_tangent_system spsolve V lam Ybus Sxfr pv pq z Vprv lamprv parameterization"
  shows "\<exists>V0 lam0 z'.
           cpf_predictor spsolve V lam Ybus Sxfr pv pq step z Vprv lamprv parameterization
             = Inr (V0, lam0, z')
           \<and> norm2 z' = 1 \<and> length z' = 2 * length V + 1
           \<and> lam0 = lam + step * z' ! (2 * length V)
           \<and> V0 = map (\<lambda>i. of_real (trial_magnitude V step z' pq i)
                             * cis (trial_angle V step z' (pv @ pq) i)) [0..<length V]"
proof -
  let ?nb = "length V"
  let ?ix = "(pv @ pq) @ map (\<lambda>i. int ?nb + i) pq @ [2 * int ?nb]"
  let ?s = "(replicate (length pv + 2 * length pq + 1) 0)[length pv + 2 * length pq := 1::real]"
  define s where "s = ?s"
  from tangent_system_ok [OF par shape idx(1)]
  obtain Jaug where ts: "tangent_system V lam Ybus Sxfr pv pq z Vprv lamprv parameterization
                           = Inr (Jaug, s)"
    unfolding s_def by blast
  define x where "x = spsolve Jaug s"
  have ls: "length s = length pv + 2 * length pq + 1"
    by (simp only: s_def length_list_update length_replicate)
  from sol have "length x = length s \<and> real_mat_vec Jaug x = s"
    unfolding solves_tangent_system_def ts x_def by (simp only: sum.case prod.case)
  then have lx: "length x = length pv + 2 * length pq + 1"
    and Jx: "real_mat_vec Jaug x = ?s"
    using ls by (simp_all only: s_def)
  have bix: "bus_indices (length z) ?ix"
    using tangent_index_ok [OF idx(1)] lz by simp
  have lix: "length ?ix = length x" using lx by simp
  define z1 where "z1 = store_all z (zip (map nat ?ix) x)"
  have as: "assign_array z ?ix x = Inr z1"
    using assign_array_bus [OF bix lix [symmetric]] by (simp add: z1_def)
  have lz1: "length z1 = 2 * ?nb + 1" by (simp add: z1_def lz)
  from solution_nonzero [OF Jx] obtain j where j: "j < length x" "x ! j \<noteq> 0" by blast
  have kin: "\<forall>k\<in>set (map nat ?ix). k < length z"
    using bix by (rule bus_indices_nat_less)
  have "z1 ! (map nat ?ix ! j) = x ! j"
    unfolding z1_def
    using store_all_distinct_nth [OF tangent_index_distinct [OF idx] _ kin, of x j] lix j(1)
    by simp
  moreover have "map nat ?ix ! j < length z1"
    using kin j(1) lix lz lz1 by (metis length_map nth_mem)
  ultimately have n0: "norm2 z1 \<noteq> 0"
    using j(2) by (auto simp: norm2_zero_iff) (metis nth_mem)
  define z2 where "z2 = map (\<lambda>v. v / norm2 z1) z1"
  have lz2: "length z2 = 2 * ?nb + 1" by (simp add: z2_def lz1)
  have nz2: "norm2 z2 = 1" unfolding z2_def by (rule norm2_normalise [OF n0])
  have b2: "bus_indices (length z2) (pv @ pq)"
    using bus_indices_mono [OF idx(1), of "length z2"] lz2 by simp
  have b3: "bus_indices (length z2) (map (\<lambda>i. int ?nb + i) pq)"
    using bus_indices_shift [of ?nb pq] idx(1) lz2 by simp
  have a: "index_array (angle V) (pv @ pq) = Inr (map (\<lambda>i. Arg (V ! nat i)) (pv @ pq))"
    unfolding angle_def using idx(1) by (rule index_array_map_bus)
  have za: "index_array z2 (pv @ pq) = Inr (map (\<lambda>i. z2 ! nat i) (pv @ pq))"
    using b2 by (rule index_array_bus)
  define Va0 where "Va0 = store_all (angle V)
      (zip (map nat (pv @ pq)) (map (\<lambda>i. Arg (V ! nat i) + step * z2 ! nat i) (pv @ pq)))"
  have sa: "assign_array (angle V) (pv @ pq)
              (map2 (\<lambda>x t. x + step * t) (map (\<lambda>i. Arg (V ! nat i)) (pv @ pq))
                 (map (\<lambda>i. z2 ! nat i) (pv @ pq))) = Inr Va0"
    using idx(1) by (simp only: map2_map_map Va0_def) (simp add: assign_array_bus angle_def)
  have m: "index_array (abs_array V) pq = Inr (map (\<lambda>i. cmod (V ! nat i)) pq)"
    unfolding abs_array_def using idx(1) by (simp add: index_array_map_bus)
  have zm: "index_array z2 (map (\<lambda>i. int ?nb + i) pq)
              = Inr (map (\<lambda>i. z2 ! nat (int ?nb + i)) pq)"
    using index_array_bus [OF b3] by (simp add: comp_def)
  define Vm0 where "Vm0 = store_all (abs_array V)
      (zip (map nat pq) (map (\<lambda>i. cmod (V ! nat i) + step * z2 ! nat (int ?nb + i)) pq))"
  have sm: "assign_array (abs_array V) pq
              (map2 (\<lambda>x t. x + step * t) (map (\<lambda>i. cmod (V ! nat i)) pq)
                 (map (\<lambda>i. z2 ! nat (int ?nb + i)) pq)) = Inr Vm0"
    using idx(1) by (simp only: map2_map_map Vm0_def) (simp add: assign_array_bus abs_array_def)
  have zl: "index_elem z2 (2 * int ?nb) = Inr (z2 ! (2 * ?nb))"
    using lz2 by (simp add: index_elem_def np_index_def nat_mult_distrib)
  have res: "cpf_predictor spsolve V lam Ybus Sxfr pv pq step z Vprv lamprv parameterization
               = Inr (polar Vm0 Va0, lam + step * z2 ! (2 * ?nb), z2)"
    unfolding cpf_predictor_def Let_def
    by (simp only: ts bind_err_Inr prod.case x_def [symmetric] as n0 if_False z1_def [symmetric]
        z2_def [symmetric] a za sa m zm sm zl)
  have Va: "Va0 ! i = trial_angle V step z2 (pv @ pq) i" if "i < ?nb" for i
    unfolding Va0_def angle_def trial_angle_def
    using advance_store [OF idx(1) that, of Arg step "\<lambda>k. z2 ! k"] by simp
  have bq: "bus_indices ?nb pq" using idx(1) by simp
  have Vm: "Vm0 ! i = trial_magnitude V step z2 pq i" if "i < ?nb" for i
  proof -
    have "map (\<lambda>i. cmod (V ! nat i) + step * z2 ! nat (int ?nb + i)) pq
            = map (\<lambda>j. cmod (V ! nat j) + step * z2 ! (?nb + nat j)) pq"
      using bq by (auto simp: bus_indices_def list_all_iff nat_add_distrib)
    then have "Vm0 = store_all (map cmod V)
        (zip (map nat pq) (map (\<lambda>j. cmod (V ! nat j) + step * z2 ! (?nb + nat j)) pq))"
      by (simp only: Vm0_def abs_array_def)
    then show ?thesis
      unfolding trial_magnitude_def
      using advance_store [OF bq that, of cmod step "\<lambda>k. z2 ! (?nb + k)"] by simp
  qed
  have lVa: "length Va0 = ?nb" and lVm: "length Vm0 = ?nb"
    by (simp_all add: Vm0_def Va0_def angle_def abs_array_def)
  have V0: "polar Vm0 Va0 = map (\<lambda>i. of_real (trial_magnitude V step z2 pq i)
                             * cis (trial_angle V step z2 (pv @ pq) i)) [0..<?nb]"
  proof (rule nth_equalityI)
    show "length (polar Vm0 Va0) = length (map (\<lambda>i. of_real (trial_magnitude V step z2 pq i)
                             * cis (trial_angle V step z2 (pv @ pq) i)) [0..<?nb])"
      by (simp add: lVa lVm)
  next
    fix i assume "i < length (polar Vm0 Va0)"
    then have i: "i < ?nb" by (simp add: lVa lVm)
    then show "polar Vm0 Va0 ! i = map (\<lambda>i. of_real (trial_magnitude V step z2 pq i)
                             * cis (trial_angle V step z2 (pv @ pq) i)) [0..<?nb] ! i"
      by (simp add: polar_def Va Vm lVa lVm)
  qed
  from res nz2 lz2 V0 show ?thesis by simp
qed

lemma upt3: "[0..<3] = [0, 1, 2]"
  by (simp add: upt_rec)

lemma two_bus_solve:
  "solve_diagonal [[10, 0, 0], [0, 10, 0], [0, 0, 1]] [0, 0, 1] = [0, 0, 1]"
  by (simp add: solve_diagonal_def upt3)

lemma two_bus_solves:
  "lamprv \<le> lam \<Longrightarrow>
     solves_tangent_system solve_diagonal [1, 1] lam two_bus_Ybus [1, 0] [] [1] z [1, 1] lamprv 1"
  by (simp add: solves_tangent_system_def two_bus_tangent_system two_bus_solve real_mat_vec_def)

lemma two_bus_predictor:
  "lamprv \<le> lam \<Longrightarrow>
     cpf_predictor solve_diagonal [1, 1] lam two_bus_Ybus [1, 0] [] [1] step [0, 0, 0, 0, 1] [1, 1] lamprv 1
       = Inr ([1, 1], lam + step, [0, 0, 0, 0, 1])"
  by (simp add: cpf_predictor_def two_bus_tangent_system two_bus_solve assign_array_def np_index_def
      norm2_def angle_def abs_array_def index_elem_def polar_def)

theorem cpf_predictor_unit_tangent_witness:
  "square_of (length [1, 1 :: complex]) two_bus_Ybus
   \<and> bus_indices (length [1, 1 :: complex]) ([] @ [1]) \<and> distinct ([] @ [1 :: int])
   \<and> solves_tangent_system solve_diagonal [1, 1] 0 two_bus_Ybus [1, 0] [] [1] [0, 0, 0, 0, 1] [1, 1] 0 1
   \<and> cpf_predictor solve_diagonal [1, 1] 0 two_bus_Ybus [1, 0] [] [1] (1/10) [0, 0, 0, 0, 1] [1, 1] 0 1
       = Inr ([1, 1], 1/10, [0, 0, 0, 0, 1])
   \<and> norm2 [0, 0, 0, 0, 1] = 1"
proof -
  have h1: "square_of (length [1, 1 :: complex]) two_bus_Ybus"
    by (simp add: two_bus_Ybus_def square_of_def)
  have h2: "bus_indices (length [1, 1 :: complex]) ([] @ [1])"
    by (simp add: bus_indices_def)
  have h3: "distinct ([] @ [1 :: int])" by simp
  have h4: "solves_tangent_system solve_diagonal [1, 1] 0 two_bus_Ybus [1, 0] [] [1] [0, 0, 0, 0, 1]
              [1, 1] 0 1"
    by (rule two_bus_solves) simp
  have p: "cpf_predictor solve_diagonal [1, 1] 0 two_bus_Ybus [1, 0] [] [1] (1/10) [0, 0, 0, 0, 1]
             [1, 1] 0 1 = Inr ([1, 1], 1/10, [0, 0, 0, 0, 1])"
    using two_bus_predictor [of 0 0 "1/10"] by simp
  from cpf_predictor_unit_tangent [of 1 "[1, 1]" two_bus_Ybus "[1, 0]" "[1, 1]" "[]" "[1]"
          "[0, 0, 0, 0, 1]" solve_diagonal 0 0 "1/10", OF _ h1 _ _ h2 h3 _ h4]
  obtain V0 lam0 z' where
    "cpf_predictor solve_diagonal [1, 1] 0 two_bus_Ybus [1, 0] [] [1] (1/10) [0, 0, 0, 0, 1]
       [1, 1] 0 1 = Inr (V0, lam0, z')" "norm2 z' = 1"
    by auto
  with p have "norm2 [0, 0, 0, 0, 1] = 1" by simp
  with h1 h2 h3 h4 p show ?thesis by blast
qed

text \<open>
  C5 as stated (``every call to the predictor returns \<dots>'') fails: with a
  parameterization outside 1, 2, 3 the predictor raises and returns no tangent vector.
\<close>

theorem cpf_predictor_unknown_mode_raises:
  "cpf_predictor solve_diagonal [1, 1] 0 two_bus_Ybus [1, 0] [] [1] (1/10) [0, 0, 0, 0, 1] [1, 1] 0 0
     = Inl UnboundLocalError"
  by (simp add: cpf_predictor_def tangent_system_def two_bus_jacobian dF_dlam_of_def np_index_def
      cpf_p_jac_def)

section \<open>The driver: theorems\<close>

subsection \<open>The loop and its passes\<close>

lemma runcpf2_passes_stopped:
  "\<not> st_continuation st \<Longrightarrow> runcpf2_passes spsolve args n st = Inr st"
  by (cases n) simp_all

lemma runcpf2_passes_continuing:
  assumes "runcpf2_passes spsolve args n st0 = Inr st" and "st_continuation st"
  shows "st_continuation st0"
  using assms by (cases "st_continuation st0") (simp_all add: runcpf2_passes_stopped)

lemma runcpf2_passes_loop:
  "runcpf2_passes spsolve args n st0 = Inr st \<Longrightarrow>
     runcpf2_loop spsolve args st0 = runcpf2_loop spsolve args st"
proof (induction n arbitrary: st0)
  case 0
  then show ?case by simp
next
  case (Suc n)
  show ?case
  proof (cases "st_continuation st0")
    case False
    with Suc.prems show ?thesis by simp
  next
    case True
    with Suc.prems obtain st1 where b: "runcpf2_body spsolve args st0 = Inr st1"
      and p: "runcpf2_passes spsolve args n st1 = Inr st"
      by (cases "runcpf2_body spsolve args st0") simp_all
    have "runcpf2_loop spsolve args st0 = runcpf2_loop spsolve args st1"
      using True b by (subst runcpf2_loop.simps) simp
    with Suc.IH [OF p] show ?thesis by simp
  qed
qed

lemma stopping_rules_adapt:
  assumes "stopping_rules stop_at lam lam_prev (c, step, order, adapt) = Inr (c', step', order', adapt')"
    and "adapt'"
  shows "step' = step \<and> adapt"
  using assms by (auto simp: stopping_rules_def split: stop_target.splits if_splits)

lemma accept_step_series:
  assumes "accept_step args V0 lam0 st = Inr st'"
  shows "st_Voltage_series st' = st_Voltage_series st @ [st_V st]
       \<and> st_Lambda_series st' = st_Lambda_series st @ [st_lam st]
       \<and> st_V st' = st_V st \<and> st_lam st' = st_lam st
       \<and> st_normF st' = st_normF st \<and> st_success st' = st_success st"
proof -
  let ?st1 = "st\<lparr>st_Voltage_series := st_Voltage_series st @ [st_V st],
                   st_Lambda_series := st_Lambda_series st @ [st_lam st]\<rparr>"
  from assms obtain c step order adapt where
    r: "stopping_rules (arg_stop_at args) (st_lam st) (st_lam_prev st)
          (st_continuation st, st_step st, st_approximation_order st, st_adapt_step st)
        = Inr (c, step, order, adapt)"
    by (cases "stopping_rules (arg_stop_at args) (st_lam st) (st_lam_prev st)
          (st_continuation st, st_step st, st_approximation_order st, st_adapt_step st)")
       (auto simp: accept_step_def Let_def)
  let ?st2 = "?st1\<lparr>st_continuation := c, st_step := step, st_approximation_order := order,
                       st_adapt_step := adapt\<rparr>"
  show ?thesis
  proof (cases "adapt \<and> c")
    case False
    with assms r have "st' = ?st2"
      by (auto simp: accept_step_def Let_def)
    then show ?thesis by simp
  next
    case True
    with assms r obtain e where
      e: "cpf_error_of (st_V st) (st_lam st) V0 lam0 (arg_pq args) (arg_pvpq args) = Inr e"
      by (cases "cpf_error_of (st_V st) (st_lam st) V0 lam0 (arg_pq args) (arg_pvpq args)")
         (auto simp: accept_step_def Let_def)
    from assms r e True obtain s where "st' = ?st2\<lparr>st_step := s\<rparr>"
      by (cases "adapt_step_size step (arg_error_tol args) e (arg_step_min args) (arg_step_max args)")
         (auto simp: accept_step_def Let_def)
    then show ?thesis by simp
  qed
qed

lemma runcpf2_body_accepted:
  assumes "runcpf2_body spsolve args st = Inr st'" and "st_continuation st'"
  shows "st_Voltage_series st' = st_Voltage_series st @ [st_V st']
       \<and> st_Lambda_series st' = st_Lambda_series st @ [st_lam st']"
  using assms
  by (auto simp: runcpf2_body_def Let_def bind_err_eq_Inr split: if_splits dest!: accept_step_series)

lemma runcpf2_passes_series:
  "runcpf2_passes spsolve args n st0 = Inr st \<Longrightarrow> st_continuation st \<Longrightarrow>
     st_Voltage_series st = st_Voltage_series st0 @ map fst (trajectory spsolve args n st0)
     \<and> st_Lambda_series st = st_Lambda_series st0 @ map snd (trajectory spsolve args n st0)
     \<and> length (trajectory spsolve args n st0) = n"
proof (induction n arbitrary: st0)
  case 0
  then show ?case by simp
next
  case (Suc n)
  have c0: "st_continuation st0"
    using Suc.prems by (rule runcpf2_passes_continuing)
  with Suc.prems obtain st1 where b: "runcpf2_body spsolve args st0 = Inr st1"
      and p: "runcpf2_passes spsolve args n st1 = Inr st"
    by (cases "runcpf2_body spsolve args st0") simp_all
  have c1: "st_continuation st1"
    using p Suc.prems(2) by (rule runcpf2_passes_continuing)
  from Suc.IH [OF p Suc.prems(2)] runcpf2_body_accepted [OF b c1] b
  show ?case by simp
qed

lemma runcpf2_body_failed:
  assumes "cpf_predictor spsolve (st_V st) (st_lam st) (arg_Ybus args) (arg_Sxfr args)
             (arg_pv args) (arg_pq args) (st_step st) (st_z st) (st_V_prev st) (st_lam_prev st)
             (st_approximation_order st) = Inr (V0, lam0, z)"
    and "cpf_corrector spsolve (arg_Ybus args) (arg_Sbus_base args) V0 (arg_pv args)
           (arg_pq args) lam0 (arg_Sxfr args) (st_V st) (st_lam st) z (st_step st)
           (st_approximation_order st) (arg_tol args) (arg_max_it args)
           = Inr (V, False, i, lam, normF)"
  shows "\<exists>st'. runcpf2_body spsolve args st = Inr st' \<and> \<not> st_continuation st'
           \<and> st_Voltage_series st' = st_Voltage_series st
           \<and> st_Lambda_series st' = st_Lambda_series st
           \<and> st_normF st' = Some normF \<and> st_success st' = Some False"
  using assms by (simp add: runcpf2_body_def Let_def)

lemma runcpf2_loop_stopped:
  "\<not> st_continuation st \<Longrightarrow> runcpf2_loop spsolve args st = Some (Inr st)"
  by (subst runcpf2_loop.simps) simp

lemma runcpf2_loop_failed:
  assumes "st_continuation st"
    and "cpf_predictor spsolve (st_V st) (st_lam st) (arg_Ybus args) (arg_Sxfr args)
             (arg_pv args) (arg_pq args) (st_step st) (st_z st) (st_V_prev st) (st_lam_prev st)
             (st_approximation_order st) = Inr (V0, lam0, z)"
    and "cpf_corrector spsolve (arg_Ybus args) (arg_Sbus_base args) V0 (arg_pv args)
           (arg_pq args) lam0 (arg_Sxfr args) (st_V st) (st_lam st) z (st_step st)
           (st_approximation_order st) (arg_tol args) (arg_max_it args)
           = Inr (V, False, i, lam, normF)"
  shows "map_option (\<lambda>r. bind_err r runcpf2_return) (runcpf2_loop spsolve args st)
           = Some (Inr (st_Voltage_series st, st_Lambda_series st, normF, False))"
proof -
  from runcpf2_body_failed [OF assms(2,3)] obtain st' where
    b: "runcpf2_body spsolve args st = Inr st'" and c: "\<not> st_continuation st'"
    and s: "st_Voltage_series st' = st_Voltage_series st"
       "st_Lambda_series st' = st_Lambda_series st"
       "st_normF st' = Some normF" "st_success st' = Some False"
    by blast
  have "runcpf2_loop spsolve args st = runcpf2_loop spsolve args st'"
    using assms(1) b by (subst runcpf2_loop.simps) simp
  also have "\<dots> = Some (Inr st')"
    using c by (rule runcpf2_loop_stopped)
  finally show ?thesis
    using s by (simp add: runcpf2_return_def)
qed

lemma runcpf2_body_success:
  assumes "runcpf2_body spsolve args st = Inr st'" and "st_continuation st'"
  shows "st_success st' = Some True"
  using assms
  by (auto simp: runcpf2_body_def Let_def bind_err_eq_Inr split: if_splits dest!: accept_step_series)

lemma runcpf2_passes_accepted:
  "runcpf2_passes spsolve args n st0 = Inr st \<Longrightarrow> st_continuation st \<Longrightarrow> k < n \<Longrightarrow>
     \<exists>sk. runcpf2_passes spsolve args (Suc k) st0 = Inr sk \<and> st_success sk = Some True
          \<and> trajectory spsolve args n st0 ! k = (st_V sk, st_lam sk)"
proof (induction n arbitrary: st0 k)
  case 0
  then show ?case by simp
next
  case (Suc n)
  have c0: "st_continuation st0"
    using Suc.prems(1,2) by (rule runcpf2_passes_continuing)
  with Suc.prems obtain st1 where b: "runcpf2_body spsolve args st0 = Inr st1"
      and p: "runcpf2_passes spsolve args n st1 = Inr st"
    by (cases "runcpf2_body spsolve args st0") simp_all
  have c1: "st_continuation st1"
    using p Suc.prems(2) by (rule runcpf2_passes_continuing)
  show ?case
  proof (cases k)
    case 0
    with b c0 runcpf2_body_success [OF b c1] show ?thesis by simp
  next
    case (Suc k')
    with Suc.prems(3) have "k' < n" by simp
    from Suc.IH [OF p Suc.prems(2) this] obtain sk where
      "runcpf2_passes spsolve args (Suc k') st1 = Inr sk" "st_success sk = Some True"
      "trajectory spsolve args n st1 ! k' = (st_V sk, st_lam sk)"
      by blast
    with b c0 Suc show ?thesis by simp
  qed
qed

subsection \<open>Runs of the two-bus network\<close>

lemma upper_NOSE: "upper ''NOSE'' = ''NOSE''"
  by (simp add: upper_def upper_char_def char_of_eq_iff take_bit_eq_mod)

lemma upper_bogus: "upper ''bogus'' = ''BOGUS''"
  by (simp add: upper_def upper_char_def char_of_eq_iff take_bit_eq_mod)

lemma two_bus_tangent_system_transfer:
  "tangent_system [1, 1] lam two_bus_Ybus [1, x] [] [1] z [1, 1] lamprv 1
     = Inr ([[10, 0, - Re x], [0, 10, - Im x], [0, 0, if lam \<ge> lamprv then 1 else - 1]], [0, 0, 1])"
  by (simp add: tangent_system_def two_bus_jacobian dF_dlam_of_def np_index_def cpf_p_jac_def
      augment_def hstack_def vstack_def numeral_3_eq_3)

lemma two_bus_solve_transfer:
  "solve_diagonal [[10, 0, a], [0, 10, b], [0, 0, 1]] [0, 0, 1] = [0, 0, 1]"
  by (simp add: solve_diagonal_def upt3)

lemma two_bus_predictor_transfer:
  "lamprv \<le> lam \<Longrightarrow>
     cpf_predictor solve_diagonal [1, 1] lam two_bus_Ybus [1, x] [] [1] step [0, 0, 0, 0, 1] [1, 1] lamprv 1
       = Inr ([1, 1], lam + step, [0, 0, 0, 0, 1])"
  by (simp add: cpf_predictor_def two_bus_tangent_system_transfer two_bus_solve_transfer
      assign_array_def np_index_def
      norm2_def angle_def abs_array_def index_elem_def polar_def)

lemma two_bus_corrector:
  assumes "lamprv \<le> lam0"
    and "F = [Re (- s - of_real lam0 * x), Im (- s - of_real lam0 * x), lam0 - lamprv - step]"
    and "norm_inf F < tol \<or> max_it \<le> 0"
  shows "cpf_corrector solve_diagonal two_bus_Ybus [0, s] [1, 1] [] [1] lam0 [1, x] [1, 1] lamprv
           z step 1 tol max_it = Inr ([1, 1], norm_inf F < tol, 0, lam0, norm_inf F)"
proof -
  have F: "augmented_mismatch0 two_bus_Ybus [0, s] [1, 1] [] [1] lam0 [1, x] [1, 1] lamprv z step 1
             = Inr F"
    using assms(1,2)
    by (simp add: augmented_mismatch0_def two_bus_mismatch np_index_def cpf_p_def)
  have "corrector_loop solve_diagonal two_bus_Ybus [0, s] [] [1] [1, x] [1, 1] lamprv z step 1 tol
          max_it 0 ([1, 1], lam0, F, norm_inf F, norm_inf F < tol)
        = Inr (0, ([1, 1], lam0, F, norm_inf F, norm_inf F < tol))"
    using assms(3) by (subst corrector_loop.simps) auto
  then show ?thesis
    by (simp add: cpf_corrector_def corrector_start_def F Let_def)
qed

lemma two_bus_corrector_converged:
  assumes "lam0 - lamprv - step = 0" and "lamprv \<le> lam0" and "0 < tol"
  shows "cpf_corrector solve_diagonal two_bus_Ybus [0, 0] [1, 1] [] [1] lam0 [1, 0] [1, 1] lamprv
           z step 1 tol max_it = Inr ([1, 1], True, 0, lam0, 0)"
  using two_bus_corrector [of lamprv lam0 "[0, 0, 0]" 0 0 step tol max_it z] assms
  by (simp add: norm_inf_def)

lemma two_bus_corrector_loaded:
  assumes "lam0 - lamprv - step = 0" and "lamprv \<le> lam0" and "0 \<le> lam0"
  shows "cpf_corrector solve_diagonal two_bus_Ybus [0, 0] [1, 1] [] [1] lam0 [1, 1] [1, 1] lamprv
           z step 1 tol 0 = Inr ([1, 1], lam0 < tol, 0, lam0, lam0)"
  using two_bus_corrector [of lamprv lam0 "[- lam0, 0, 0]" 0 1 step tol 0 z] assms
  by (simp add: norm_inf_def)

lemma two_bus_corrector_unsolved:
  assumes "lam0 - lamprv - step = 0" and "lamprv \<le> lam0"
  shows "cpf_corrector solve_diagonal two_bus_Ybus [0, - 1] [1, 1] [] [1] lam0 [1, 0] [1, 1] lamprv
           z step 1 tol 0 = Inr ([1, 1], 1 < tol, 0, lam0, 1)"
  using two_bus_corrector [of lamprv lam0 "[1, 0, 0]" "- 1" 0 step tol 0 z] assms
  by (simp add: norm_inf_def)

lemma two_bus_cpf_error: "cpf_error_of [1, 1] lam [1, 1] lam [1] [1] = Inr 0"
  by (simp add: cpf_error_of_def np_index_def angle_def abs_array_def vsub_def norm_inf_def)

lemma two_bus_init:
  "runcpf2_init [a, b] V step order adapt =
     \<lparr>st_V = V, st_lam = 0, st_V_prev = V, st_lam_prev = 0,
      st_continuation = True, st_cont_steps = 0, st_z = [0, 0, 0, 0, 1],
      st_Voltage_series = [], st_Lambda_series = [],
      st_step = step, st_approximation_order = order,
      st_adapt_step = adapt, st_normF = None, st_success = None\<rparr>"
  by (simp add: runcpf2_init_def eval_nat_numeral)

text \<open>
  A run of the two-bus network with a transfer at both buses, a loose tolerance and no
  Newton iteration allowed: the first pass is accepted, the second fails.
\<close>

lemma two_bus_first_pass:
  "runcpf2_passes solve_diagonal
     (runcpf2_args two_bus_Ybus [0, 0] [1, 1] [] [1] (1/100) 1 (1/1000) (15/100) 0 (StopName ''NOSE''))
     (Suc 0) (runcpf2_init [0, 0] [1, 1] (1/10) 1 False)
   = Inr \<lparr>st_V = [1, 1], st_lam = 1/10, st_V_prev = [1, 1], st_lam_prev = 0,
          st_continuation = True, st_cont_steps = 1, st_z = [0, 0, 0, 0, 1],
          st_Voltage_series = [[1, 1]], st_Lambda_series = [1/10], st_step = 1/10,
          st_approximation_order = 1, st_adapt_step = False, st_normF = Some (1/10),
          st_success = Some True\<rparr>"
  by (simp add: runcpf2_args_def two_bus_init runcpf2_body_def two_bus_predictor_transfer
      two_bus_corrector_loaded accept_step_def stopping_rules_def upper_NOSE Let_def)

lemma two_bus_trajectory:
  "trajectory solve_diagonal
     (runcpf2_args two_bus_Ybus [0, 0] [1, 1] [] [1] (1/100) 1 (1/1000) (15/100) 0 (StopName ''NOSE''))
     (Suc 0) (runcpf2_init [0, 0] [1, 1] (1/10) 1 False) = [([1, 1], 1/10)]"
  using two_bus_first_pass by (simp add: two_bus_init bind_err_eq_Inr)

subsection \<open>A corrector that does not converge\<close>

text \<open>
  C8: when the corrector of a pass returns \<open>converged = False\<close>, the driver leaves the
  loop without appending the point of that pass. If \<open>n\<close> passes were accepted before
  (the state \<open>st\<close> after them still has \<open>continuation\<close> set) and the corrector of
  pass \<open>n + 1\<close> fails with mismatch norm \<open>normF\<close>, then \<^verbatim>\<open>runcpf2\<close> returns: its two
  series are the \<open>(V, lam)\<close> of the \<open>n\<close> passes before, in order, each the result of a
  corrector call that reported success; \<open>normF\<close>; and the success flag \<open>False\<close>.
\<close>

theorem runcpf2_corrector_failure:
  assumes len: "length Sbus_target = length Sbus_base"
    and args: "args = runcpf2_args Ybus Sbus_base Sbus_target pv pq step_min step_max error_tol
                 tol max_it stop_at"
    and init: "st0 = runcpf2_init Sbus_base V step approximation_order adapt_step"
    and passes: "runcpf2_passes spsolve args n st0 = Inr st"
    and cont: "st_continuation st"
    and pred: "cpf_predictor spsolve (st_V st) (st_lam st) Ybus (arg_Sxfr args) pv pq
                 (st_step st) (st_z st) (st_V_prev st) (st_lam_prev st) (st_approximation_order st)
               = Inr (V0, lam0, z)"
    and corr: "cpf_corrector spsolve Ybus Sbus_base V0 pv pq lam0 (arg_Sxfr args) (st_V st)
                 (st_lam st) z (st_step st) (st_approximation_order st) tol max_it
               = Inr (V', False, i, lam', normF)"
  shows "runcpf2 spsolve Ybus Sbus_base Sbus_target V pv pq step approximation_order adapt_step
           step_min step_max error_tol tol max_it stop_at
         = Some (Inr (map fst (trajectory spsolve args n st0),
                      map snd (trajectory spsolve args n st0), normF, False))
       \<and> length (trajectory spsolve args n st0) = n
       \<and> (\<forall>k<n. \<exists>sk. runcpf2_passes spsolve args (Suc k) st0 = Inr sk
                  \<and> st_success sk = Some True
                  \<and> trajectory spsolve args n st0 ! k = (st_V sk, st_lam sk))"
proof -
  have a: "arg_Ybus args = Ybus" "arg_Sbus_base args = Sbus_base" "arg_pv args = pv"
    "arg_pq args = pq" "arg_tol args = tol" "arg_max_it args = max_it"
    by (simp_all add: args runcpf2_args_def)
  have s0: "st_Voltage_series st0 = []" "st_Lambda_series st0 = []"
    by (simp_all add: init runcpf2_init_def Let_def)
  have "map_option (\<lambda>r. bind_err r runcpf2_return) (runcpf2_loop spsolve args st)
          = Some (Inr (st_Voltage_series st, st_Lambda_series st, normF, False))"
    using cont pred corr by (intro runcpf2_loop_failed) (simp_all only: a)
  moreover have "runcpf2_loop spsolve args st0 = runcpf2_loop spsolve args st"
    using passes by (rule runcpf2_passes_loop)
  moreover note runcpf2_passes_series [OF passes cont]
  ultimately have "runcpf2 spsolve Ybus Sbus_base Sbus_target V pv pq step approximation_order
      adapt_step step_min step_max error_tol tol max_it stop_at
         = Some (Inr (map fst (trajectory spsolve args n st0),
                      map snd (trajectory spsolve args n st0), normF, False))"
    using len by (simp add: runcpf2_def args [symmetric] init [symmetric] s0)
  moreover have "length (trajectory spsolve args n st0) = n"
    using runcpf2_passes_series [OF passes cont] by simp
  moreover have "\<forall>k<n. \<exists>sk. runcpf2_passes spsolve args (Suc k) st0 = Inr sk
                  \<and> st_success sk = Some True
                  \<and> trajectory spsolve args n st0 ! k = (st_V sk, st_lam sk)"
    using runcpf2_passes_accepted [OF passes cont] by blast
  ultimately show ?thesis by blast
qed

theorem runcpf2_corrector_failure_witness:
  "runcpf2 solve_diagonal two_bus_Ybus [0, 0] [1, 1] [1, 1] [] [1] (1/10) 1 False (1/100) 1
     (1/1000) (15/100) 0 (StopName ''NOSE'') = Some (Inr ([[1, 1]], [1/10], 1/5, False))"
proof -
  let ?args = "runcpf2_args two_bus_Ybus [0, 0] [1, 1] [] [1] (1/100) 1 (1/1000) (15/100) 0
                 (StopName ''NOSE'')"
  let ?st0 = "runcpf2_init [0, 0] [1, 1] (1/10) 1 False"
  have "runcpf2 solve_diagonal two_bus_Ybus [0, 0] [1, 1] [1, 1] [] [1] (1/10) 1 False (1/100) 1
          (1/1000) (15/100) 0 (StopName ''NOSE'')
        = Some (Inr (map fst (trajectory solve_diagonal ?args (Suc 0) ?st0),
                     map snd (trajectory solve_diagonal ?args (Suc 0) ?st0), 1/5, False))"
    using runcpf2_corrector_failure [OF _ refl refl two_bus_first_pass, where ?V0.0 = "[1, 1]"
      and ?lam0.0 = "1/5" and z = "[0, 0, 0, 0, 1]" and V' = "[1, 1]" and i = 0 and lam' = "1/5"
      and normF = "1/5"]
    by (simp add: runcpf2_args_def two_bus_predictor_transfer two_bus_corrector_loaded
        del: trajectory.simps runcpf2_passes.simps)
  then show ?thesis
    by (simp only: two_bus_trajectory) simp
qed

subsection \<open>An unknown stop name\<close>

text \<open>
  C3, amended: the name of the stopping rule is looked at inside the loop, after the
  predictor and the corrector of the first pass. With a name other than \<open>FULL\<close> and
  \<open>NOSE\<close> (in any case), \<^verbatim>\<open>runcpf2\<close> runs one predictor step and one corrector call
  from the base case; an error of either is its result; if the corrector converged it
  then raises the stop-point-not-recognised error; if the corrector did not converge it
  returns empty series, the mismatch norm and the success flag \<open>False\<close>, and the error
  is not raised.
\<close>

theorem runcpf2_unknown_stop_name:
  assumes "upper s \<noteq> ''FULL''" and "upper s \<noteq> ''NOSE''"
    and "length Sbus_target = length Sbus_base"
  shows "runcpf2 spsolve Ybus Sbus_base Sbus_target V pv pq step approximation_order adapt_step
           step_min step_max error_tol tol max_it (StopName s)
         = Some (bind_err
             (cpf_predictor spsolve V 0 Ybus (map2 (\<lambda>t b. t - b) Sbus_target Sbus_base) pv pq step
                ((replicate (2 * length Sbus_base + 1) 0)[2 * length Sbus_base := 1]) V 0
                approximation_order)
             (\<lambda>(V0, lam0, z).
           bind_err
             (cpf_corrector spsolve Ybus Sbus_base V0 pv pq lam0
                (map2 (\<lambda>t b. t - b) Sbus_target Sbus_base) V 0 z step approximation_order tol
                max_it)
             (\<lambda>(V', success, i, lam, normF).
                if success then Inl (StopPointNotRecognised s)
                else Inr ([], [], normF, False))))"
proof -
  let ?args = "runcpf2_args Ybus Sbus_base Sbus_target pv pq step_min step_max error_tol tol
                 max_it (StopName s)"
  let ?st0 = "runcpf2_init Sbus_base V step approximation_order adapt_step"
  let ?Sxfr = "map2 (\<lambda>t b. t - b) Sbus_target Sbus_base"
  let ?z0 = "(replicate (2 * length Sbus_base + 1) 0)[2 * length Sbus_base := 1 :: real]"
  let ?P = "cpf_predictor spsolve V 0 Ybus ?Sxfr pv pq step ?z0 V 0 approximation_order"
  have c0: "st_continuation ?st0"
    by (simp add: runcpf2_init_def Let_def)
  have loop: "runcpf2_loop spsolve ?args ?st0 =
      (case runcpf2_body spsolve ?args ?st0 of Inl e \<Rightarrow> Some (Inl e)
       | Inr st' \<Rightarrow> runcpf2_loop spsolve ?args st')"
    using c0 by (subst runcpf2_loop.simps) simp
  show ?thesis
  proof (cases ?P)
    case (Inl e)
    then have "runcpf2_body spsolve ?args ?st0 = Inl e"
      by (simp add: runcpf2_body_def runcpf2_args_def runcpf2_init_def Let_def)
    with loop Inl assms(3) show ?thesis by (simp add: runcpf2_def)
  next
    case (Inr r)
    obtain V0 lam0 z where r: "r = (V0, lam0, z)" by (cases r)
    let ?C = "cpf_corrector spsolve Ybus Sbus_base V0 pv pq lam0 ?Sxfr V 0 z step
                approximation_order tol max_it"
    show ?thesis
    proof (cases ?C)
      case (Inl e)
      with Inr r have "runcpf2_body spsolve ?args ?st0 = Inl e"
        by (simp add: runcpf2_body_def runcpf2_args_def runcpf2_init_def Let_def)
      with loop Inl Inr r assms(3) show ?thesis by (simp add: runcpf2_def)
    next
      case c: (Inr q)
      obtain V' success i lam normF where q: "q = (V', success, i, lam, normF)" by (cases q)
      show ?thesis
      proof (cases success)
        case True
        with Inr r c q assms(1,2) have "runcpf2_body spsolve ?args ?st0
            = Inl (StopPointNotRecognised s)"
          by (simp add: runcpf2_body_def runcpf2_args_def runcpf2_init_def Let_def
              accept_step_def stopping_rules_def)
        with loop Inr r c q True assms(3) show ?thesis by (simp add: runcpf2_def)
      next
        case False
        have "map_option (\<lambda>r. bind_err r runcpf2_return) (runcpf2_loop spsolve ?args ?st0)
               = Some (Inr (st_Voltage_series ?st0, st_Lambda_series ?st0, normF, False))"
          using c0 Inr r c q False
          by (intro runcpf2_loop_failed [where ?V0.0 = V0 and ?lam0.0 = lam0 and z = z
                and V = V' and i = i and lam = lam])
             (simp_all add: runcpf2_args_def runcpf2_init_def Let_def)
        with Inr r c q False assms(3) show ?thesis
          by (simp add: runcpf2_def runcpf2_init_def Let_def)
      qed
    qed
  qed
qed

theorem runcpf2_unknown_stop_name_witness:
  "upper ''bogus'' \<noteq> ''FULL'' \<and> upper ''bogus'' \<noteq> ''NOSE''
   \<and> runcpf2 solve_diagonal two_bus_Ybus [0, 0] [1, 0] [1, 1] [] [1] (1/10) 1 False (1/100) 1
       (1/1000) (1 / 10 ^ 6) 20 (StopName ''bogus'') = Some (Inl (StopPointNotRecognised ''bogus''))"
  using runcpf2_unknown_stop_name [of "''bogus''" "[1, 0]" "[0, 0]" solve_diagonal two_bus_Ybus
      "[1, 1]" "[]" "[1]" "1/10" 1 False "1/100" 1 "1/1000" "1 / 10 ^ 6" 20]
  by (simp add: upper_bogus eval_nat_numeral two_bus_predictor two_bus_corrector_converged)

text \<open>
  C3 as stated (``raises immediately, before any predictor or corrector step'') fails:
  on the two-bus network with a base case that is not solved and no Newton iteration
  allowed, the corrector of the first pass does not converge and the run returns
  normally, the unknown name \<open>bogus\<close> never looked at.
\<close>

theorem runcpf2_unknown_stop_name_not_raised:
  "runcpf2 solve_diagonal two_bus_Ybus [0, - 1] [1, - 1] [1, 1] [] [1] (1/10) 1 False (1/100) 1
     (1/1000) (1 / 10 ^ 6) 0 (StopName ''bogus'') = Some (Inr ([], [], 1, False))"
  using runcpf2_loop_failed [of "runcpf2_init [0, - 1] [1, 1] (1/10) 1 False" solve_diagonal
      "runcpf2_args two_bus_Ybus [0, - 1] [1, - 1] [] [1] (1/100) 1 (1/1000) (1 / 10 ^ 6) 0
         (StopName ''bogus'')" "[1, 1]" "1/10" "[0, 0, 0, 0, 1]" "[1, 1]" 0 "1/10" 1]
  by (simp add: runcpf2_def runcpf2_args_def two_bus_init two_bus_predictor
      two_bus_corrector_unsolved)

subsection \<open>The prediction error and the adapted step\<close>

lemma fold_max_ge: "a \<le> fold max xs (a :: real)"
proof (induction xs arbitrary: a)
  case Nil
  then show ?case by simp
next
  case (Cons x xs)
  have "a \<le> max x a" by simp
  also have "\<dots> \<le> fold max xs (max x a)" by (rule Cons.IH)
  finally show ?case by simp
qed

lemma norm_inf_nonneg: "0 \<le> norm_inf xs"
  unfolding norm_inf_def by (rule fold_max_ge)

lemma norm_inf_Max:
  assumes "xs \<noteq> []"
  shows "norm_inf xs = Max (abs ` set xs)"
proof -
  let ?A = "abs ` set xs"
  have fin: "finite ?A"
    by simp
  have ne: "?A \<noteq> {}"
    using assms by simp
  obtain x where x: "x \<in> set xs"
    using assms by (cases xs) auto
  have "\<bar>x\<bar> \<le> Max ?A"
    using fin x by (intro Max_ge) (rule fin, rule imageI)
  then have pos: "0 \<le> Max ?A"
    by (rule order_trans [OF abs_ge_zero])
  have "norm_inf xs = Max (set (0 # map abs xs))"
    unfolding norm_inf_def by (rule Max.set_eq_fold [symmetric])
  also have "\<dots> = Max (insert 0 ?A)" by simp
  also have "\<dots> = max 0 (Max ?A)"
    using fin ne by (rule Max_insert)
  also have "\<dots> = Max ?A" using pos by simp
  finally show ?thesis .
qed

lemma cpf_error_of_bus:
  assumes "bus_indices (length V) pq" and "bus_indices (length V) pvpq"
    and "length V0 = length V"
  shows "cpf_error_of V lam V0 lam0 pq pvpq = Inr (prediction_error V lam V0 lam0 pq pvpq)"
proof -
  let ?a = "\<lambda>i. Arg (V ! nat i) - Arg (V0 ! nat i)"
  let ?m = "\<lambda>i. cmod (V ! nat i) - cmod (V0 ! nat i)"
  let ?d = "map ?a pq @ map ?m pvpq @ [lam - lam0]"
  have i1: "index_array V pq = Inr (map (\<lambda>i. V ! nat i) pq)"
    using assms(1) by (rule index_array_bus)
  have i2: "index_array V pvpq = Inr (map (\<lambda>i. V ! nat i) pvpq)"
    using assms(2) by (rule index_array_bus)
  have i3: "index_array V0 pq = Inr (map (\<lambda>i. V0 ! nat i) pq)"
    using assms(1) by (intro index_array_bus) (simp only: assms(3))
  have i4: "index_array V0 pvpq = Inr (map (\<lambda>i. V0 ! nat i) pvpq)"
    using assms(2) by (intro index_array_bus) (simp only: assms(3))
  have v1: "vsub (angle (map (\<lambda>i. V ! nat i) pq)) (angle (map (\<lambda>i. V0 ! nat i) pq)) = map ?a pq"
    by (simp add: angle_def vsub_def zip_map_map zip_same_conv_map)
  have v2: "vsub (abs_array (map (\<lambda>i. V ! nat i) pvpq)) (abs_array (map (\<lambda>i. V0 ! nat i) pvpq))
              = map ?m pvpq"
    by (simp add: abs_array_def vsub_def zip_map_map zip_same_conv_map)
  have l1: "length (angle (map (\<lambda>i. V ! nat i) pq)) = length (angle (map (\<lambda>i. V0 ! nat i) pq))"
    by (simp add: angle_def)
  have l2: "length (abs_array (map (\<lambda>i. V ! nat i) pvpq))
              = length (abs_array (map (\<lambda>i. V0 ! nat i) pvpq))"
    by (simp add: abs_array_def)
  have "cpf_error_of V lam V0 lam0 pq pvpq = Inr (norm_inf ?d)"
    by (simp only: cpf_error_of_def i1 i2 i3 i4 bind_err_Inr vsub_append [OF l1]
        vsub_append [OF l2] v1 v2 vsub_single)
  moreover have "norm_inf ?d = Max (abs ` set ?d)"
    by (rule norm_inf_Max) simp
  moreover have "abs ` set ?d = (\<lambda>i. \<bar>?a i\<bar>) ` set pq \<union> (\<lambda>i. \<bar>?m i\<bar>) ` set pvpq
          \<union> {\<bar>lam - lam0\<bar>}"
    by (simp add: image_Un image_image)
  ultimately show ?thesis
    by (simp only: prediction_error_def)
qed

lemma adapt_step_size_finite:
  assumes "e \<noteq> 0"
  shows "adapt_step_size step error_tol e step_min step_max =
     Finite (if e < error_tol then min (step * (error_tol / e)) step_max
             else max (step * (error_tol / e)) step_min)"
proof -
  have d: "np_divide (step * error_tol) e = Finite (step * (error_tol / e))"
    using assms by (simp add: np_divide_def)
  show ?thesis
    unfolding adapt_step_size_def d Let_def
    by (simp add: min_def max_def)
qed

lemma two_bus_prediction_error:
  "prediction_error [1, 1] (1/10) [1, 1] (1/5) [1] [1] = 1/10"
  by (simp add: prediction_error_def)

text \<open>
  C4, amended: the prediction error is the infinity norm of the difference between the
  corrected solution and the trial point over the angles at the PQ buses, the
  magnitudes at the PV and PQ buses, and lambda. After an accepted step that leaves the
  continuation running with adaptation enabled (the stopping rules answer
  \<open>continuation = True\<close>, \<open>adapt_step = True\<close> and leave the step as it was), and for an
  error other than zero, the new step is the old one times \<open>error_tol / error\<close>, capped at
  \<open>step_max\<close> when the error is below \<open>error_tol\<close> and floored at \<open>step_min\<close>
  otherwise.
\<close>

theorem accept_step_adapts_step:
  assumes pq: "bus_indices (length (st_V st)) (arg_pq args)"
    and pvpq: "bus_indices (length (st_V st)) (arg_pvpq args)"
    and len: "length V0 = length (st_V st)"
    and rules: "stopping_rules (arg_stop_at args) (st_lam st) (st_lam_prev st)
                  (st_continuation st, st_step st, st_approximation_order st, st_adapt_step st)
                = Inr (True, step, order, True)"
    and e: "e = prediction_error (st_V st) (st_lam st) V0 lam0 (arg_pq args) (arg_pvpq args)"
    and nz: "e \<noteq> 0"
  shows "cpf_error_of (st_V st) (st_lam st) V0 lam0 (arg_pq args) (arg_pvpq args) = Inr e
       \<and> step = st_step st
       \<and> (\<exists>st'. accept_step args V0 lam0 st = Inr st'
              \<and> st_step st' =
                  (if e < arg_error_tol args
                   then min (step * (arg_error_tol args / e)) (arg_step_max args)
                   else max (step * (arg_error_tol args / e)) (arg_step_min args)))"
proof -
  have err: "cpf_error_of (st_V st) (st_lam st) V0 lam0 (arg_pq args) (arg_pvpq args) = Inr e"
    unfolding e using pq pvpq len by (rule cpf_error_of_bus)
  have step: "step = st_step st"
    using stopping_rules_adapt [OF rules] by simp
  have "\<exists>st'. accept_step args V0 lam0 st = Inr st'
              \<and> st_step st' =
                  (if e < arg_error_tol args
                   then min (step * (arg_error_tol args / e)) (arg_step_max args)
                   else max (step * (arg_error_tol args / e)) (arg_step_min args))"
    by (simp add: accept_step_def Let_def rules err adapt_step_size_finite [OF nz])
  with err step show ?thesis by blast
qed

theorem accept_step_adapts_step_witness:
  "\<exists>st'. accept_step
     (runcpf2_args two_bus_Ybus [0, 0] [1, 0] [] [1] (1/100) 1 (1/1000) (1 / 10 ^ 6) 20
        (StopName ''NOSE''))
     [1, 1] (1/5)
     \<lparr>st_V = [1, 1], st_lam = 1/10, st_V_prev = [1, 1], st_lam_prev = 0,
      st_continuation = True, st_cont_steps = 1, st_z = [0, 0, 0, 0, 1],
      st_Voltage_series = [], st_Lambda_series = [], st_step = 1/10,
      st_approximation_order = 1, st_adapt_step = True, st_normF = Some 0,
      st_success = Some True\<rparr> = Inr st' \<and> st_step st' = 1 / 100"
  using accept_step_adapts_step [of
     "\<lparr>st_V = [1, 1], st_lam = 1/10, st_V_prev = [1, 1], st_lam_prev = 0,
      st_continuation = True, st_cont_steps = 1, st_z = [0, 0, 0, 0, 1],
      st_Voltage_series = [], st_Lambda_series = [], st_step = 1/10,
      st_approximation_order = 1, st_adapt_step = True, st_normF = Some 0,
      st_success = Some True\<rparr>"
     "runcpf2_args two_bus_Ybus [0, 0] [1, 0] [] [1] (1/100) 1 (1/1000) (1 / 10 ^ 6) 20
        (StopName ''NOSE'')"
     "[1, 1]" "1/10" 1 "1/10" "1/5"]
  by (simp add: runcpf2_args_def bus_indices_def stopping_rules_def upper_NOSE
      two_bus_prediction_error)

text \<open>
  C4 as stated (``angle at non-reference buses'') fails: the angle of a PV bus does not
  enter the error. With bus 1 a PV bus whose angle the corrector moved by \<open>pi / 2\<close>,
  the code computes the error 0, the error of the claim is \<open>pi / 2\<close>.
\<close>

theorem cpf_error_ignores_pv_angle:
  "cpf_error_of [1, \<i>] 0 [1, 1] 0 [] [1] = Inr 0
   \<and> cpf_error_claimed [1, \<i>] 0 [1, 1] 0 [] [1] = Inr (pi / 2)"
  by (simp add: cpf_error_of_def cpf_error_claimed_def np_index_def angle_def abs_array_def
      vsub_def norm_inf_def)

subsection \<open>The bounds of the step\<close>

lemma cpf_error_of_nonneg: "cpf_error_of V lam V0 lam0 pq pvpq = Inr e \<Longrightarrow> 0 \<le> e"
  by (auto simp: cpf_error_of_def bind_err_eq_Inr norm_inf_nonneg)

lemma grow_ge:
  assumes "0 \<le> step" and "0 < e" and "e < tol"
  shows "step \<le> step * tol / (e :: real)"
proof -
  have "step * e \<le> step * tol"
    using assms by (intro mult_left_mono) simp_all
  then show ?thesis
    using assms(2) by (simp add: pos_le_divide_eq)
qed

lemma shrink_le:
  assumes "0 \<le> step" and "0 < e" and "tol \<le> e"
  shows "step * tol / (e :: real) \<le> step"
proof -
  have "step * tol \<le> step * e"
    using assms by (intro mult_left_mono) simp_all
  then show ?thesis
    using assms(2) by (simp add: pos_divide_le_eq)
qed

lemma adapt_step_size_bounds:
  assumes min0: "0 \<le> step_min" and mm: "step_min \<le> step_max"
    and lo: "step_min \<le> step" and hi: "step \<le> step_max" and e0: "0 \<le> e"
    and res: "adapt_step_size step error_tol e step_min step_max = Finite s"
  shows "step_min \<le> s \<and> s \<le> step_max"
proof -
  have s0: "0 \<le> step" using min0 lo by simp
  show ?thesis
  proof (cases "e = 0")
    case True
    show ?thesis
    proof (cases "e < error_tol")
      case grow: True
      with True res have "s = step_max"
        by (simp add: adapt_step_size_def np_divide_def Let_def split: if_splits)
      with mm show ?thesis by simp
    next
      case False
      with True res have "s = step_min"
        by (simp add: adapt_step_size_def np_divide_def Let_def split: if_splits)
      with mm show ?thesis by simp
    qed
  next
    case False
    with e0 have epos: "0 < e" by simp
    let ?x = "step * error_tol / e"
    have d: "np_divide (step * error_tol) e = Finite ?x"
      using False by (simp add: np_divide_def)
    show ?thesis
    proof (cases "e < error_tol")
      case True
      have ge: "step \<le> ?x"
        using s0 epos True by (rule grow_ge)
      from res True have "s = (if ?x > step_max then step_max else ?x)"
        by (simp add: adapt_step_size_def d Let_def split: if_splits)
      with ge lo mm show ?thesis by (simp split: if_splits)
    next
      case False
      then have "error_tol \<le> e" by simp
      with s0 epos have le: "?x \<le> step"
        by (rule shrink_le)
      from res False have "s = (if ?x < step_min then step_min else ?x)"
        by (simp add: adapt_step_size_def d Let_def split: if_splits)
      with le hi mm show ?thesis by (simp split: if_splits)
    qed
  qed
qed

lemma accept_step_bounds:
  assumes min0: "0 \<le> arg_step_min args" and mm: "arg_step_min args \<le> arg_step_max args"
    and inv: "st_adapt_step st \<longrightarrow>
                arg_step_min args \<le> st_step st \<and> st_step st \<le> arg_step_max args"
    and res: "accept_step args V0 lam0 st = Inr st'"
    and ad: "st_adapt_step st'"
  shows "arg_step_min args \<le> st_step st' \<and> st_step st' \<le> arg_step_max args"
proof -
  let ?st1 = "st\<lparr>st_Voltage_series := st_Voltage_series st @ [st_V st],
                   st_Lambda_series := st_Lambda_series st @ [st_lam st]\<rparr>"
  from res obtain c step order adapt where
    r: "stopping_rules (arg_stop_at args) (st_lam st) (st_lam_prev st)
          (st_continuation st, st_step st, st_approximation_order st, st_adapt_step st)
        = Inr (c, step, order, adapt)"
    by (cases "stopping_rules (arg_stop_at args) (st_lam st) (st_lam_prev st)
          (st_continuation st, st_step st, st_approximation_order st, st_adapt_step st)")
       (auto simp: accept_step_def Let_def)
  let ?st2 = "?st1\<lparr>st_continuation := c, st_step := step, st_approximation_order := order,
                       st_adapt_step := adapt\<rparr>"
  show ?thesis
  proof (cases "adapt \<and> c")
    case False
    with res r have st': "st' = ?st2"
      by (auto simp: accept_step_def Let_def)
    with ad have "adapt" by simp
    with stopping_rules_adapt [OF r] inv st' show ?thesis by simp
  next
    case True
    then have "adapt" by simp
    with stopping_rules_adapt [OF r] inv have
      b: "arg_step_min args \<le> step" "step \<le> arg_step_max args"
      by simp_all
    from res r True obtain e where
      e: "cpf_error_of (st_V st) (st_lam st) V0 lam0 (arg_pq args) (arg_pvpq args) = Inr e"
      by (cases "cpf_error_of (st_V st) (st_lam st) V0 lam0 (arg_pq args) (arg_pvpq args)")
         (auto simp: accept_step_def Let_def)
    from res r e True obtain s where
      s: "adapt_step_size step (arg_error_tol args) e (arg_step_min args) (arg_step_max args)
            = Finite s"
      and st': "st' = ?st2\<lparr>st_step := s\<rparr>"
      by (cases "adapt_step_size step (arg_error_tol args) e (arg_step_min args) (arg_step_max args)")
         (auto simp: accept_step_def Let_def)
    from adapt_step_size_bounds [OF min0 mm b cpf_error_of_nonneg [OF e] s] st'
    show ?thesis by simp
  qed
qed

lemma runcpf2_body_bounds:
  assumes min0: "0 \<le> arg_step_min args" and mm: "arg_step_min args \<le> arg_step_max args"
    and inv: "st_adapt_step st \<longrightarrow>
                arg_step_min args \<le> st_step st \<and> st_step st \<le> arg_step_max args"
    and res: "runcpf2_body spsolve args st = Inr st'"
    and ad: "st_adapt_step st'"
  shows "arg_step_min args \<le> st_step st' \<and> st_step st' \<le> arg_step_max args"
proof -
  from res obtain V0 lam0 z where
    p: "cpf_predictor spsolve (st_V st) (st_lam st) (arg_Ybus args) (arg_Sxfr args)
          (arg_pv args) (arg_pq args) (st_step st) (st_z st) (st_V_prev st) (st_lam_prev st)
          (st_approximation_order st) = Inr (V0, lam0, z)"
    by (cases "cpf_predictor spsolve (st_V st) (st_lam st) (arg_Ybus args) (arg_Sxfr args)
          (arg_pv args) (arg_pq args) (st_step st) (st_z st) (st_V_prev st) (st_lam_prev st)
          (st_approximation_order st)")
       (auto simp: runcpf2_body_def)
  from res p obtain V success i lam normF where
    c: "cpf_corrector spsolve (arg_Ybus args) (arg_Sbus_base args) V0 (arg_pv args)
          (arg_pq args) lam0 (arg_Sxfr args) (st_V st) (st_lam st) z (st_step st)
          (st_approximation_order st) (arg_tol args) (arg_max_it args)
        = Inr (V, success, i, lam, normF)"
    by (cases "cpf_corrector spsolve (arg_Ybus args) (arg_Sbus_base args) V0 (arg_pv args)
          (arg_pq args) lam0 (arg_Sxfr args) (st_V st) (st_lam st) z (st_step st)
          (st_approximation_order st) (arg_tol args) (arg_max_it args)")
       (auto simp: runcpf2_body_def Let_def)
  let ?st1 = "st\<lparr>st_cont_steps := st_cont_steps st + 1, st_z := z,
                   st_V_prev := st_V st, st_lam_prev := st_lam st,
                   st_V := V, st_lam := lam,
                   st_normF := Some normF, st_success := Some success\<rparr>"
  have inv1: "st_adapt_step ?st1 \<longrightarrow>
                arg_step_min args \<le> st_step ?st1 \<and> st_step ?st1 \<le> arg_step_max args"
    using inv by simp
  show ?thesis
  proof (cases success)
    case False
    with res p c have "st' = ?st1\<lparr>st_continuation := False\<rparr>"
      by (simp add: runcpf2_body_def Let_def)
    with ad inv show ?thesis by simp
  next
    case True
    with res p c have "accept_step args V0 lam0 ?st1 = Inr st'"
      by (simp add: runcpf2_body_def Let_def)
    with min0 mm inv1 show ?thesis
      using ad by (rule accept_step_bounds)
  qed
qed

lemma runcpf2_passes_bounds:
  assumes min0: "0 \<le> arg_step_min args" and mm: "arg_step_min args \<le> arg_step_max args"
  shows "runcpf2_passes spsolve args n st0 = Inr st \<Longrightarrow>
     (st_adapt_step st0 \<longrightarrow>
        arg_step_min args \<le> st_step st0 \<and> st_step st0 \<le> arg_step_max args) \<Longrightarrow>
     st_adapt_step st \<Longrightarrow>
     arg_step_min args \<le> st_step st \<and> st_step st \<le> arg_step_max args"
proof (induction n arbitrary: st0)
  case 0
  then show ?case by simp
next
  case (Suc n)
  show ?case
  proof (cases "st_continuation st0")
    case False
    with Suc.prems show ?thesis by simp
  next
    case True
    with Suc.prems(1) obtain st1 where b: "runcpf2_body spsolve args st0 = Inr st1"
      and p: "runcpf2_passes spsolve args n st1 = Inr st"
      by (cases "runcpf2_body spsolve args st0") simp_all
    have "st_adapt_step st1 \<longrightarrow>
            arg_step_min args \<le> st_step st1 \<and> st_step st1 \<le> arg_step_max args"
      using runcpf2_body_bounds [OF min0 mm Suc.prems(2) b] by blast
    with p show ?thesis
      using Suc.prems(3) by (rule Suc.IH)
  qed
qed

lemma two_bus_adaptive_pass:
  "runcpf2_passes solve_diagonal
     (runcpf2_args two_bus_Ybus [0, 0] [1, 0] [] [1] (1/100) 1 (1/1000) (1 / 10 ^ 6) 20
        (StopName ''NOSE''))
     (Suc 0) (runcpf2_init [0, 0] [1, 1] (1/10) 1 True)
   = Inr \<lparr>st_V = [1, 1], st_lam = 1/10, st_V_prev = [1, 1], st_lam_prev = 0,
          st_continuation = True, st_cont_steps = 1, st_z = [0, 0, 0, 0, 1],
          st_Voltage_series = [[1, 1]], st_Lambda_series = [1/10], st_step = 1,
          st_approximation_order = 1, st_adapt_step = True, st_normF = Some 0,
          st_success = Some True\<rparr>"
  by (simp add: runcpf2_args_def two_bus_init runcpf2_body_def two_bus_predictor
      two_bus_corrector_converged accept_step_def stopping_rules_def upper_NOSE Let_def
      two_bus_cpf_error adapt_step_size_def np_divide_def)

lemma two_bus_overshoot_pass:
  "runcpf2_passes solve_diagonal
     (runcpf2_args two_bus_Ybus [0, 0] [1, 0] [] [1] (1/4) 1 (1/1000) (1 / 10 ^ 6) 20
        (StopLambda (1/2)))
     (Suc 0) (runcpf2_init [0, 0] [1, 1] (3/10) 1 True)
   = Inr \<lparr>st_V = [1, 1], st_lam = 3/10, st_V_prev = [1, 1], st_lam_prev = 0,
          st_continuation = True, st_cont_steps = 1, st_z = [0, 0, 0, 0, 1],
          st_Voltage_series = [[1, 1]], st_Lambda_series = [3/10], st_step = 1/5,
          st_approximation_order = 1, st_adapt_step = False, st_normF = Some 0,
          st_success = Some True\<rparr>"
  by (simp add: runcpf2_args_def two_bus_init runcpf2_body_def two_bus_predictor
      two_bus_corrector_converged accept_step_def stopping_rules_def Let_def)

lemma two_bus_overshoot_run:
  "runcpf2_passes solve_diagonal
     (runcpf2_args two_bus_Ybus [0, 0] [1, 0] [] [1] (1/4) 1 (1/1000) (1 / 10 ^ 6) 20
        (StopLambda (1/2)))
     (Suc (Suc 0)) (runcpf2_init [0, 0] [1, 1] (3/10) 1 True)
   = Inr \<lparr>st_V = [1, 1], st_lam = 1/2, st_V_prev = [1, 1], st_lam_prev = 3/10,
          st_continuation = False, st_cont_steps = 2, st_z = [0, 0, 0, 0, 1],
          st_Voltage_series = [[1, 1], [1, 1]], st_Lambda_series = [3/10, 1/2], st_step = 1/5,
          st_approximation_order = 1, st_adapt_step = False, st_normF = Some 0,
          st_success = Some True\<rparr>"
  by (simp add: runcpf2_args_def two_bus_init runcpf2_body_def two_bus_predictor
      two_bus_corrector_converged accept_step_def stopping_rules_def Let_def)

text \<open>
  C2, amended: with \<open>0 \<le> step_min \<le> step_max\<close> and an initial step in
  \<open>[step_min, step_max]\<close>, the step the driver holds after any number of passes lies in
  \<open>[step_min, step_max]\<close> as long as adaptation is still enabled, that is, as long as no
  overshoot branch has run. The passes are those of a run that has raised no error and
  whose step has stayed a number: \<open>0 * error_tol / 0\<close> is \<open>nan\<close>, which ends the run
  of the model with \<open>NonFinite\<close>.
\<close>

theorem runcpf2_adaptive_step_bounds:
  assumes "0 \<le> step_min" and "step_min \<le> step_max"
    and "step_min \<le> step" and "step \<le> step_max"
    and "runcpf2_passes spsolve
           (runcpf2_args Ybus Sbus_base Sbus_target pv pq step_min step_max error_tol tol max_it
              stop_at)
           n (runcpf2_init Sbus_base V step approximation_order adapt_step) = Inr st"
    and "st_adapt_step st"
  shows "step_min \<le> st_step st \<and> st_step st \<le> step_max"
  using runcpf2_passes_bounds [OF _ _ assms(5) _ assms(6)] assms(1-4)
  by (simp add: runcpf2_args_def runcpf2_init_def Let_def)

theorem runcpf2_adaptive_step_bounds_witness:
  "\<exists>st. runcpf2_passes solve_diagonal
          (runcpf2_args two_bus_Ybus [0, 0] [1, 0] [] [1] (1/100) 1 (1/1000) (1 / 10 ^ 6) 20
             (StopName ''NOSE''))
          (Suc 0) (runcpf2_init [0, 0] [1, 1] (1/10) 1 True) = Inr st
        \<and> st_adapt_step st \<and> 1/100 \<le> st_step st \<and> st_step st \<le> 1"
proof -
  let ?st = "\<lparr>st_V = [1, 1], st_lam = 1/10, st_V_prev = [1, 1], st_lam_prev = 0,
          st_continuation = True, st_cont_steps = 1, st_z = [0, 0, 0, 0, 1],
          st_Voltage_series = [[1, 1]], st_Lambda_series = [1/10], st_step = 1,
          st_approximation_order = 1, st_adapt_step = True, st_normF = Some 0,
          st_success = Some True\<rparr>"
  have a: "st_adapt_step ?st"
    by simp
  have "1/100 \<le> st_step ?st \<and> st_step ?st \<le> 1"
    using runcpf2_adaptive_step_bounds [OF _ _ _ _ two_bus_adaptive_pass a] by simp
  with two_bus_adaptive_pass a show ?thesis
    by blast
qed

text \<open>
  C2 as stated (``including the steps produced by the overshoot-handling branches'')
  fails: with the target \<open>lambda = 1/2\<close>, the step \<open>3/10\<close> and \<open>step_min = 1/4\<close>, the
  first pass reaches \<open>lambda = 3/10\<close>, the overshoot branch sets the step to
  \<open>1/2 - 3/10 = 1/5\<close>, below \<open>step_min\<close>, and the second pass uses it: the run ends at
  \<open>lambda = 1/2\<close>.
\<close>

theorem runcpf2_overshoot_step_below_minimum:
  "runcpf2_passes solve_diagonal
     (runcpf2_args two_bus_Ybus [0, 0] [1, 0] [] [1] (1/4) 1 (1/1000) (1 / 10 ^ 6) 20
        (StopLambda (1/2)))
     (Suc 0) (runcpf2_init [0, 0] [1, 1] (3/10) 1 True)
   = Inr \<lparr>st_V = [1, 1], st_lam = 3/10, st_V_prev = [1, 1], st_lam_prev = 0,
          st_continuation = True, st_cont_steps = 1, st_z = [0, 0, 0, 0, 1],
          st_Voltage_series = [[1, 1]], st_Lambda_series = [3/10], st_step = 1/5,
          st_approximation_order = 1, st_adapt_step = False, st_normF = Some 0,
          st_success = Some True\<rparr>
   \<and> (1/5 :: real) < 1/4
   \<and> runcpf2 solve_diagonal two_bus_Ybus [0, 0] [1, 0] [1, 1] [] [1] (3/10) 1 True (1/4) 1
       (1/1000) (1 / 10 ^ 6) 20 (StopLambda (1/2))
     = Some (Inr ([[1, 1], [1, 1]], [3/10, 1/2], 0, True))"
proof -
  have "runcpf2 solve_diagonal two_bus_Ybus [0, 0] [1, 0] [1, 1] [] [1] (3/10) 1 True (1/4) 1
       (1/1000) (1 / 10 ^ 6) 20 (StopLambda (1/2))
     = Some (Inr ([[1, 1], [1, 1]], [3/10, 1/2], 0, True))"
    unfolding runcpf2_def runcpf2_passes_loop [OF two_bus_overshoot_run]
    by (simp add: runcpf2_loop_stopped runcpf2_return_def)
  with two_bus_overshoot_pass show ?thesis
    by simp
qed


end
